theory Spec2Isabelle
  imports Main "HOL-Library.Sublist"
begin

section \<open>Strings and paths\<close>

text \<open>
  Go strings are byte sequences; they are modelled as \<open>string\<close> (a list of 8-bit
  characters), so \<open>length\<close> is Go's \<open>len\<close>.

  \<open>strings.ToLower\<close> lowers a string that has only bytes below \<open>0x80\<close> byte by
  byte, the letters A to Z becoming a to z. Any other string goes through
  \<open>strings.Map(unicode.ToLower, s)\<close>, which decodes UTF-8 and uses the case tables of
  package \<open>unicode\<close>; the result can have another length in bytes. The tables are not
  part of the sources, so this second path is the parameter \<open>unicodeLower\<close> of
  \<open>ToLower\<close> and of every function that lowers a name. Nothing is assumed about it.
\<close>

type_synonym lowering = "string \<Rightarrow> string"

definition ToLowerChar :: "char \<Rightarrow> char" where
  "ToLowerChar c =
     (case map_of (zip ''ABCDEFGHIJKLMNOPQRSTUVWXYZ'' ''abcdefghijklmnopqrstuvwxyz'') c of
        Some l \<Rightarrow> l
      | None \<Rightarrow> c)"

definition ToLower :: "lowering \<Rightarrow> string \<Rightarrow> string" where
  "ToLower unicodeLower s =
     (if list_all (\<lambda>c. of_char c < (128::nat)) s then map ToLowerChar s
      else unicodeLower s)"

text \<open>\<open>strings.HasPrefix\<close>, \<open>strings.TrimPrefix\<close> and \<open>strings.Contains\<close>.\<close>

definition HasPrefix :: "string \<Rightarrow> string \<Rightarrow> bool" where
  "HasPrefix s pre = (length pre \<le> length s \<and> take (length pre) s = pre)"

definition TrimPrefix :: "string \<Rightarrow> string \<Rightarrow> string" where
  "TrimPrefix s pre = (if HasPrefix s pre then drop (length pre) s else s)"

fun Contains :: "string \<Rightarrow> string \<Rightarrow> bool" where
  "Contains [] sub = (sub = [])"
| "Contains (c # s) sub = (if HasPrefix (c # s) sub then True else Contains s sub)"

text \<open>
  \<open>filepath.Ext\<close>: the loop runs from the last byte towards the first, stops at a
  path separator, and returns the suffix that starts at the first dot it meets.
  \<open>extScan\<close> takes the reversed path and the bytes already passed.
\<close>

fun extScan :: "string \<Rightarrow> string \<Rightarrow> string" where
  "extScan [] acc = []"
| "extScan (c # r) acc =
     (if c = CHR ''/'' then []
      else if c = CHR ''.'' then c # acc
      else extScan r (c # acc))"

definition Ext :: "string \<Rightarrow> string" where
  "Ext path = extScan (rev path) []"

text \<open>
  \<open>filepath.Clean\<close> and \<open>filepath.Join\<close> on a Unix path: the path is split at the
  slashes; empty elements and \<open>.\<close> are dropped; \<open>..\<close> removes the element before it,
  is dropped at the root of a rooted path and is kept at the start of a relative one.
  \<open>cleanElems\<close> keeps the elements written so far as a stack (last one first).
\<close>

fun splitSlash :: "string \<Rightarrow> string \<Rightarrow> string list" where
  "splitSlash cur [] = [rev cur]"
| "splitSlash cur (c # cs) =
     (if c = CHR ''/'' then rev cur # splitSlash [] cs else splitSlash (c # cur) cs)"

fun cleanElems :: "bool \<Rightarrow> string list \<Rightarrow> string list \<Rightarrow> string list" where
  "cleanElems rooted out [] = rev out"
| "cleanElems rooted out (c # cs) =
     (if c = [] \<or> c = ''.'' then cleanElems rooted out cs
      else if c = ''..'' then
        (case out of
           b # bs \<Rightarrow>
             if b = ''..'' then cleanElems rooted (c # out) cs else cleanElems rooted bs cs
         | [] \<Rightarrow> if rooted then cleanElems rooted [] cs else cleanElems rooted [c] cs)
      else cleanElems rooted (c # out) cs)"

fun joinSlash :: "string list \<Rightarrow> string" where
  "joinSlash [] = []"
| "joinSlash [x] = x"
| "joinSlash (x # y # r) = x @ ''/'' @ joinSlash (y # r)"

definition Clean :: "string \<Rightarrow> string" where
  "Clean path =
     (if path = [] then ''.''
      else
        let rooted = (hd path = CHR ''/'');
            s = joinSlash (cleanElems rooted [] (splitSlash [] path))
        in if rooted then CHR ''/'' # s else if s = [] then ''.'' else s)"

definition Join :: "string \<Rightarrow> string \<Rightarrow> string" where
  "Join a b =
     (if a \<noteq> [] then Clean (a @ ''/'' @ b) else if b \<noteq> [] then Clean b else [])"

text \<open>
  The name that \<open>os.Lstat\<close> reports for the root of the walk (\<open>basename\<close> of package
  \<open>os\<close>): trailing slashes are removed, never the first byte, then the leading
  directories. \<open>stripSlashes\<close> works on the reversed name.
\<close>

fun stripSlashes :: "string \<Rightarrow> string" where
  "stripSlashes (c # d # r) = (if c = CHR ''/'' then stripSlashes (d # r) else c # d # r)"
| "stripSlashes r = r"

definition basename :: "string \<Rightarrow> string" where
  "basename name =
     (case stripSlashes (rev name) of
        [] \<Rightarrow> []
      | c # r \<Rightarrow> rev (c # takeWhile (\<lambda>x. x \<noteq> CHR ''/'') r))"

section \<open>The catalog\<close>

text \<open>
  Modelled from the spec: the declaration of \<open>TitleData\<close> that \<open>fileparse.go\<close> uses is
  not among the sources (the struct in \<open>pinecone.go\<close> is an older one, without
  \<open>TitleUpdatesKnown\<close>). The fields are the four the code reads. \<open>ContentIDs\<close> is a
  slice of strings. \<open>Archived\<close> and \<open>TitleUpdatesKnown\<close> are ranged over twice, first
  as a sequence and then as a map from string to string, so each is a list of maps.
  A Go map has one value for each key and the loops only test keys for equality, so
  the order in which a map is ranged over does not matter and a map is modelled as a
  partial function.
\<close>

record TitleData =
  TitleName :: string
  ContentIDs :: "string list"
  Archived :: "(string \<rightharpoonup> string) list"
  TitleUpdatesKnown :: "(string \<rightharpoonup> string) list"

type_synonym catalog = "string \<rightharpoonup> TitleData"

section \<open>The file system\<close>

text \<open>
  The scanned tree. A file carries what hashing it gives: the error of opening or
  reading it, or the hexadecimal SHA-1 digest of its bytes. A directory carries its
  entries in the order in which it is listed; \<open>NoList e\<close> is a directory whose
  enumeration fails with the error \<open>e\<close>. Symbolic links are not modelled, names are
  compared byte for byte, and the tree does not change during a scan.
\<close>

datatype node =
    File "string + string"
  | Dir "(string \<times> node) list"
  | NoList string

fun IsDir :: "node \<Rightarrow> bool" where
  "IsDir (File r) = False"
| "IsDir (Dir es) = True"
| "IsDir (NoList e) = True"

text \<open>\<open>os.ReadDir\<close> of the node found at a path.\<close>

fun ReadDir :: "node \<Rightarrow> string + (string \<times> node) list" where
  "ReadDir (Dir es) = Inr es"
| "ReadDir (NoList e) = Inl e"
| "ReadDir (File r) = Inl ''not a directory''"

text \<open>\<open>os.Stat\<close> of the entry \<open>name\<close> of the directory \<open>d\<close>.\<close>

fun Stat :: "node \<Rightarrow> string \<Rightarrow> node option" where
  "Stat (Dir es) name = map_of es name"
| "Stat (File r) name = None"
| "Stat (NoList e) name = None"

text \<open>
  \<open>getSHA1Hash\<close>: opening a directory succeeds and reading it fails, so a directory
  gives an error.
\<close>

fun getSHA1Hash :: "node \<Rightarrow> string + string" where
  "getSHA1Hash (File r) = r"
| "getSHA1Hash (Dir es) = Inl ''is a directory''"
| "getSHA1Hash (NoList e) = Inl ''is a directory''"

section \<open>Errors, events and traces\<close>

datatype error =
    SkipDir
  | DirectoryNotFound string
  | OSError string

text \<open>
  What the code reports. Each event stands for the group of \<open>printInfo\<close> and
  \<open>printHeader\<close> calls (or \<open>addText\<close> and \<open>addHeader\<close> calls) that the code makes
  for it, with the arguments that are formatted into the messages.
\<close>

datatype event =
    RootNotFound string
  | TitleHeader string
  | UnrecognizedDLC string
  | UnrecognizedUpdates string
  | ContentUnknown string
  | ContentArchived string
  | ContentUnarchived string string
  | HashError string string
  | UpdateKnown string string string string string
  | UpdateUnknown string string string string

datatype sink = Console | Gui

text \<open>
  The effects of a scan, in order: \<open>Visit p\<close> is a call of the walk function on the
  path \<open>p\<close> with no error, \<open>EnumFail p e\<close> a directory enumeration that failed,
  \<open>GetSHA1 p\<close> a call of \<open>getSHA1Hash\<close>, \<open>Emit s ev\<close> a report to the console
  or to the GUI pane.
\<close>

datatype action =
    Visit string
  | EnumFail string string
  | GetSHA1 string
  | Emit sink event

text \<open>\<open>if guiEnabled { addText(...) }; printInfo(...)\<close>\<close>

definition report :: "bool \<Rightarrow> event \<Rightarrow> action list" where
  "report guiEnabled ev = (if guiEnabled then [Emit Gui ev] else []) @ [Emit Console ev]"

text \<open>The closure \<open>logOutput\<close> of \<open>checkForContent\<close>: one sink or the other.\<close>

definition logOutput :: "bool \<Rightarrow> event \<Rightarrow> action list" where
  "logOutput guiEnabled ev = (if \<not> guiEnabled then [Emit Console ev] else [Emit Gui ev])"

section \<open>\<open>contains\<close>\<close>

fun contains :: "string list \<Rightarrow> string \<Rightarrow> bool" where
  "contains [] val = False"
| "contains (item # slice) val = (if item = val then True else contains slice val)"

section \<open>The content classifier (\<open>processDLCContent\<close>)\<close>

text \<open>The inner loop over the entries of a content subdirectory, with its \<open>break\<close>.\<close>

fun hasContentMetaXbx :: "lowering \<Rightarrow> (string \<times> node) list \<Rightarrow> bool" where
  "hasContentMetaXbx unicodeLower [] = False"
| "hasContentMetaXbx unicodeLower (dlcFiles # subDirContents) =
     (if Contains (ToLower unicodeLower (fst dlcFiles)) ''contentmeta.xbx'' \<and> \<not> IsDir (snd dlcFiles)
      then True
      else hasContentMetaXbx unicodeLower subDirContents)"

text \<open>
  The loops that set \<open>archivedName\<close>: the name of the first map that has the key; an
  empty name does not stop the outer loop.
\<close>

fun findArchived :: "(string \<rightharpoonup> string) list \<Rightarrow> string \<Rightarrow> string" where
  "findArchived [] contentID = []"
| "findArchived (archived # rest) contentID =
     (let archivedName = (case archived contentID of Some name \<Rightarrow> name | None \<Rightarrow> [])
      in if archivedName \<noteq> [] then archivedName else findArchived rest contentID)"

text \<open>
  The rest of the loop body, for a subdirectory that has passed the
  \<open>hasContentMetaXbx\<close> test. The unknown branch reports \<open>subContentPath\<close> as it is;
  \<open>strings.TrimPrefix\<close> is applied after it.
\<close>

definition classifyContent ::
  "lowering \<Rightarrow> bool \<Rightarrow> TitleData \<Rightarrow> string \<Rightarrow> string \<Rightarrow> string \<Rightarrow> action list" where
  "classifyContent unicodeLower guiEnabled titleData directory subContentPath name =
     (let contentID = ToLower unicodeLower name in
      if \<not> contains (ContentIDs titleData) contentID
      then report guiEnabled (ContentUnknown subContentPath)
      else
        let archivedName = findArchived (Archived titleData) contentID;
            subContentPath' = TrimPrefix subContentPath (directory @ ''/'')
        in if archivedName \<noteq> []
           then report guiEnabled (ContentArchived archivedName)
           else report guiEnabled (ContentUnarchived (TitleName titleData) subContentPath'))"

fun dlcLoop ::
  "lowering \<Rightarrow> bool \<Rightarrow> string \<Rightarrow> TitleData \<Rightarrow> string \<Rightarrow> (string \<times> node) list
     \<Rightarrow> action list \<times> error option" where
  "dlcLoop unicodeLower guiEnabled subDirDLC titleData directory [] = ([], None)"
| "dlcLoop unicodeLower guiEnabled subDirDLC titleData directory (subContent # rest) =
     (let subContentPath = Join subDirDLC (fst subContent) in
      if \<not> IsDir (snd subContent) then dlcLoop unicodeLower guiEnabled subDirDLC titleData directory rest
      else
        case ReadDir (snd subContent) of
          Inl e \<Rightarrow> ([EnumFail subContentPath e], Some (OSError e))
        | Inr subDirContents \<Rightarrow>
            if \<not> hasContentMetaXbx unicodeLower subDirContents
            then dlcLoop unicodeLower guiEnabled subDirDLC titleData directory rest
            else
              let out = classifyContent unicodeLower guiEnabled titleData directory subContentPath
                          (fst subContent);
                  r = dlcLoop unicodeLower guiEnabled subDirDLC titleData directory rest
              in (out @ fst r, snd r))"

text \<open>
  \<open>processDLCContent\<close>; \<open>d\<close> is the node found at \<open>subDirDLC\<close>. The parameter
  \<open>titleID\<close> is not used by the code.
\<close>

definition processDLCContent ::
  "lowering \<Rightarrow> bool \<Rightarrow> string \<Rightarrow> node \<Rightarrow> TitleData \<Rightarrow> string \<Rightarrow> string
     \<Rightarrow> action list \<times> error option" where
  "processDLCContent unicodeLower guiEnabled subDirDLC d titleData titleID directory =
     (case ReadDir d of
        Inl e \<Rightarrow> ([EnumFail subDirDLC e], Some (OSError e))
      | Inr subContents \<Rightarrow> dlcLoop unicodeLower guiEnabled subDirDLC titleData directory subContents)"

section \<open>The update classifier (\<open>processUpdates\<close> of \<open>fileparse.go\<close>)\<close>

text \<open>
  The two events of the classifier. With the GUI on, \<open>filePath\<close> is trimmed once
  before the GUI line and once more before the console line.
\<close>

definition reportKnown ::
  "bool \<Rightarrow> TitleData \<Rightarrow> string \<Rightarrow> string \<Rightarrow> string \<Rightarrow> string \<Rightarrow> string
     \<Rightarrow> action list" where
  "reportKnown guiEnabled titleData titleID directory name filePath fileHash =
     (let p1 = (if guiEnabled then TrimPrefix filePath (directory @ ''/'') else filePath);
          p2 = TrimPrefix p1 (directory @ ''/'')
      in (if guiEnabled
          then [Emit Gui (UpdateKnown (TitleName titleData) titleID name p1 fileHash)]
          else [])
         @ [Emit Console (UpdateKnown (TitleName titleData) titleID name p2 fileHash)])"

definition reportUnknown ::
  "bool \<Rightarrow> TitleData \<Rightarrow> string \<Rightarrow> string \<Rightarrow> string \<Rightarrow> string \<Rightarrow> action list" where
  "reportUnknown guiEnabled titleData titleID directory filePath fileHash =
     (let p1 = (if guiEnabled then TrimPrefix filePath (directory @ ''/'') else filePath);
          p2 = TrimPrefix p1 (directory @ ''/'')
      in (if guiEnabled
          then [Emit Gui (UpdateUnknown (TitleName titleData) titleID p1 fileHash)]
          else [])
         @ [Emit Console (UpdateUnknown (TitleName titleData) titleID p2 fileHash)])"

text \<open>
  The loop over \<open>titleData.TitleUpdatesKnown\<close> for one file. It returns what is
  reported and the new value of \<open>knownUpdateFound\<close>. The flag is tested after each
  map, whether or not this file matched in it.
\<close>

fun scanKnown ::
  "bool \<Rightarrow> TitleData \<Rightarrow> string \<Rightarrow> string \<Rightarrow> string \<Rightarrow> string \<Rightarrow> bool
     \<Rightarrow> (string \<rightharpoonup> string) list \<Rightarrow> action list \<times> bool" where
  "scanKnown guiEnabled titleData titleID directory filePath fileHash knownUpdateFound [] =
     ([], knownUpdateFound)"
| "scanKnown guiEnabled titleData titleID directory filePath fileHash knownUpdateFound
     (knownUpdate # rest) =
     (case knownUpdate fileHash of
        Some name \<Rightarrow>
          (reportKnown guiEnabled titleData titleID directory name filePath fileHash, True)
      | None \<Rightarrow>
          if knownUpdateFound then ([], knownUpdateFound)
          else scanKnown guiEnabled titleData titleID directory filePath fileHash
                 knownUpdateFound rest)"

text \<open>
  The loop over the files. \<open>knownUpdateFound\<close> is declared before the loop, so it is
  passed from one file to the next.
\<close>

fun updatesLoop ::
  "bool \<Rightarrow> string \<Rightarrow> TitleData \<Rightarrow> string \<Rightarrow> string \<Rightarrow> bool \<Rightarrow> (string \<times> node) list
     \<Rightarrow> action list" where
  "updatesLoop guiEnabled subDirUpdates titleData titleID directory knownUpdateFound [] = []"
| "updatesLoop guiEnabled subDirUpdates titleData titleID directory knownUpdateFound
     (f # files) =
     (if Ext (fst f) \<noteq> ''.xbe''
      then updatesLoop guiEnabled subDirUpdates titleData titleID directory
             knownUpdateFound files
      else
        let filePath = Join subDirUpdates (fst f) in
        case getSHA1Hash (snd f) of
          Inl e \<Rightarrow>
            GetSHA1 filePath # report guiEnabled (HashError (fst f) e)
              @ updatesLoop guiEnabled subDirUpdates titleData titleID directory
                  knownUpdateFound files
        | Inr fileHash \<Rightarrow>
            let s = scanKnown guiEnabled titleData titleID directory filePath fileHash
                      knownUpdateFound (TitleUpdatesKnown titleData)
            in GetSHA1 filePath # fst s
                 @ (if \<not> snd s
                    then reportUnknown guiEnabled titleData titleID directory filePath
                           fileHash
                    else [])
                 @ updatesLoop guiEnabled subDirUpdates titleData titleID directory
                     (snd s) files)"

definition processUpdates ::
  "bool \<Rightarrow> string \<Rightarrow> node \<Rightarrow> TitleData \<Rightarrow> string \<Rightarrow> string
     \<Rightarrow> action list \<times> error option" where
  "processUpdates guiEnabled subDirUpdates d titleData titleID directory =
     (case ReadDir d of
        Inl e \<Rightarrow> ([EnumFail subDirUpdates e], Some (OSError e))
      | Inr files \<Rightarrow>
          (updatesLoop guiEnabled subDirUpdates titleData titleID directory False files,
           None))"

section \<open>The update classifier of \<open>src/unnamed/part_000\<close>\<close>

text \<open>
  The older copy of \<open>processUpdates\<close> has no GUI branch, reports the matched name as
  \<open>name[17:]\<close> and leaves the loop over the files after the first match. In Go the
  slice expression panics when \<open>name\<close> has fewer than 17 bytes, so a run either
  returns or panics. The header line printed just before the slice is evaluated is
  not an event.
\<close>

datatype 'a outcome = Returns 'a | Panics

fun scanKnown_part000 ::
  "TitleData \<Rightarrow> string \<Rightarrow> string \<Rightarrow> string \<Rightarrow> string \<Rightarrow> bool
     \<Rightarrow> (string \<rightharpoonup> string) list \<Rightarrow> action list \<times> bool outcome" where
  "scanKnown_part000 titleData titleID directory filePath fileHash knownUpdateFound [] =
     ([], Returns knownUpdateFound)"
| "scanKnown_part000 titleData titleID directory filePath fileHash knownUpdateFound
     (knownUpdate # rest) =
     (case knownUpdate fileHash of
        Some name \<Rightarrow>
          if length name < 17 then ([], Panics)
          else
            ([Emit Console
                (UpdateKnown (TitleName titleData) titleID (drop 17 name)
                   (TrimPrefix filePath (directory @ ''/'')) fileHash)],
             Returns True)
      | None \<Rightarrow>
          if knownUpdateFound then ([], Returns knownUpdateFound)
          else scanKnown_part000 titleData titleID directory filePath fileHash
                 knownUpdateFound rest)"

fun updatesLoop_part000 ::
  "string \<Rightarrow> TitleData \<Rightarrow> string \<Rightarrow> string \<Rightarrow> bool \<Rightarrow> (string \<times> node) list
     \<Rightarrow> action list \<times> error option outcome" where
  "updatesLoop_part000 subDirUpdates titleData titleID directory knownUpdateFound [] =
     ([], Returns None)"
| "updatesLoop_part000 subDirUpdates titleData titleID directory knownUpdateFound
     (f # files) =
     (if Ext (fst f) \<noteq> ''.xbe''
      then updatesLoop_part000 subDirUpdates titleData titleID directory
             knownUpdateFound files
      else
        let filePath = Join subDirUpdates (fst f) in
        case getSHA1Hash (snd f) of
          Inl e \<Rightarrow>
            (let r = updatesLoop_part000 subDirUpdates titleData titleID directory
                       knownUpdateFound files
             in (GetSHA1 filePath # Emit Console (HashError (fst f) e) # fst r, snd r))
        | Inr fileHash \<Rightarrow>
            (case scanKnown_part000 titleData titleID directory filePath fileHash
                    knownUpdateFound (TitleUpdatesKnown titleData) of
               (out, Panics) \<Rightarrow> (GetSHA1 filePath # out, Panics)
             | (out, Returns found) \<Rightarrow>
                 if found then (GetSHA1 filePath # out, Returns None)
                 else
                   let r = updatesLoop_part000 subDirUpdates titleData titleID directory
                             found files
                   in (GetSHA1 filePath # out
                         @ Emit Console
                             (UpdateUnknown (TitleName titleData) titleID
                                (TrimPrefix filePath (directory @ ''/'')) fileHash)
                         # fst r,
                       snd r)))"

definition processUpdates_part000 ::
  "string \<Rightarrow> node \<Rightarrow> TitleData \<Rightarrow> string \<Rightarrow> string
     \<Rightarrow> action list \<times> error option outcome" where
  "processUpdates_part000 subDirUpdates d titleData titleID directory =
     (case ReadDir d of
        Inl e \<Rightarrow> ([EnumFail subDirUpdates e], Returns (Some (OSError e)))
      | Inr files \<Rightarrow>
          updatesLoop_part000 subDirUpdates titleData titleID directory False files)"

section \<open>The walker (\<open>checkForContent\<close>)\<close>

text \<open>
  The function passed to \<open>filepath.Walk\<close>. \<open>info\<close> is the name and the node of the
  entry at \<open>path\<close>; the global \<open>titles.Titles\<close> is the parameter \<open>titles\<close>. The
  copy in \<open>src/unnamed/part_000\<close> is this function with \<open>guiEnabled\<close> false (and
  its own \<open>processUpdates\<close>).
\<close>

definition probeDLC ::
  "lowering \<Rightarrow> bool \<Rightarrow> catalog \<Rightarrow> string \<Rightarrow> string \<Rightarrow> string \<times> node \<Rightarrow> action list \<times> error option" where
  "probeDLC unicodeLower guiEnabled titles directory path info =
     (let titleID = ToLower unicodeLower (fst info); subDirDLC = Join path ''$c'' in
      case Stat (snd info) ''$c'' of
        None \<Rightarrow> ([], None)
      | Some subInfoDLC \<Rightarrow>
          if IsDir subInfoDLC then
            (case titles titleID of
               Some titleData \<Rightarrow>
                 processDLCContent unicodeLower guiEnabled subDirDLC subInfoDLC titleData titleID directory
             | None \<Rightarrow> (logOutput guiEnabled (UnrecognizedDLC subDirDLC), None))
          else ([], None))"

definition probeUpdates ::
  "lowering \<Rightarrow> bool \<Rightarrow> catalog \<Rightarrow> string \<Rightarrow> string \<Rightarrow> string \<times> node \<Rightarrow> action list \<times> error option" where
  "probeUpdates unicodeLower guiEnabled titles directory path info =
     (let titleID = ToLower unicodeLower (fst info); subDirUpdates = Join path ''$u'' in
      case Stat (snd info) ''$u'' of
        None \<Rightarrow> ([], None)
      | Some subInfoUpdates \<Rightarrow>
          if IsDir subInfoUpdates then
            (case titles titleID of
               Some titleData \<Rightarrow>
                 processUpdates guiEnabled subDirUpdates subInfoUpdates titleData titleID
                   directory
             | None \<Rightarrow> (logOutput guiEnabled (UnrecognizedUpdates subDirUpdates), None))
          else ([], None))"

definition walkFn ::
  "lowering \<Rightarrow> bool \<Rightarrow> catalog \<Rightarrow> string \<Rightarrow> string \<Rightarrow> string \<times> node \<Rightarrow> error option
     \<Rightarrow> action list \<times> error option" where
  "walkFn unicodeLower guiEnabled titles directory path info err =
     (case err of
        Some e \<Rightarrow> ([], Some e)
      | None \<Rightarrow>
          if IsDir (snd info) \<and> length (fst info) = 8 then
            let titleID = ToLower unicodeLower (fst info);
                header = (case titles titleID of
                            Some titleData \<Rightarrow> report guiEnabled (TitleHeader (TitleName titleData))
                          | None \<Rightarrow> []);
                c = probeDLC unicodeLower guiEnabled titles directory path info
            in if snd c \<noteq> None then (Visit path # header @ fst c, snd c)
               else
                 let u = probeUpdates unicodeLower guiEnabled titles directory path info
                 in if snd u \<noteq> None then (Visit path # header @ fst c @ fst u, snd u)
                    else (Visit path # header @ fst c @ fst u,
                          if titles titleID = None then Some SkipDir else None)
          else ([Visit path], None))"

text \<open>
  \<open>filepath.Walk\<close> with this function: \<open>walk\<close> is the library's \<open>walk\<close>, \<open>walks\<close>
  its loop over the names of a directory. A directory is enumerated before the
  function is called on it; when the enumeration fails the function is called with
  the error and what it returns is returned. \<open>SkipDir\<close> from a directory makes the
  loop go on with the next name.
\<close>

fun walk ::
  "lowering \<Rightarrow> bool \<Rightarrow> catalog \<Rightarrow> string \<Rightarrow> string \<Rightarrow> string \<times> node \<Rightarrow> action list \<times> error option"
and walks ::
  "lowering \<Rightarrow> bool \<Rightarrow> catalog \<Rightarrow> string \<Rightarrow> string \<Rightarrow> (string \<times> node) list
     \<Rightarrow> action list \<times> error option" where
  "walk unicodeLower guiEnabled titles directory path (name, File r) =
     walkFn unicodeLower guiEnabled titles directory path (name, File r) None"
| "walk unicodeLower guiEnabled titles directory path (name, NoList e) =
     (let r = walkFn unicodeLower guiEnabled titles directory path (name, NoList e) (Some (OSError e))
      in (EnumFail path e # fst r, snd r))"
| "walk unicodeLower guiEnabled titles directory path (name, Dir names) =
     (let r = walkFn unicodeLower guiEnabled titles directory path (name, Dir names) None
      in if snd r \<noteq> None then r
         else
           let w = walks unicodeLower guiEnabled titles directory path names
           in (fst r @ fst w, snd w))"
| "walks unicodeLower guiEnabled titles directory path [] = ([], None)"
| "walks unicodeLower guiEnabled titles directory path (entry # rest) =
     (let filename = Join path (fst entry);
          r = walk unicodeLower guiEnabled titles directory filename entry
      in if snd r \<noteq> None \<and> (\<not> IsDir (snd entry) \<or> snd r \<noteq> Some SkipDir) then r
         else
           let w = walks unicodeLower guiEnabled titles directory path rest
           in (fst r @ fst w, snd w))"

text \<open>
  \<open>checkForContent\<close>; \<open>root\<close> is the node found at \<open>directory\<close>, or \<open>None\<close> when
  nothing is there. \<open>filepath.Walk\<close> turns a final \<open>SkipDir\<close> into no error.
\<close>

definition checkForContent ::
  "lowering \<Rightarrow> bool \<Rightarrow> catalog \<Rightarrow> string \<Rightarrow> node option \<Rightarrow> action list \<times> error option" where
  "checkForContent unicodeLower guiEnabled titles directory root =
     (case root of
        None \<Rightarrow> ([Emit Console (RootNotFound directory)], Some (DirectoryNotFound directory))
      | Some d \<Rightarrow>
          let r = walk unicodeLower guiEnabled titles directory directory (basename directory, d)
          in (fst r, if snd r = Some SkipDir then None else snd r))"

section \<open>Sample data\<close>

text \<open>
  A catalog entry and small trees used to run the definitions. The digests are the
  SHA-1 digests of the one-byte files \<open>1\<close> and \<open>2\<close> and of the empty file. All
  names in the samples have only bytes below \<open>0x80\<close>, so the lowering of other names
  is never called in them; \<open>sampleLower\<close> stands for it.
\<close>

definition sampleLower :: lowering where
  "sampleLower s = s"

definition gameA :: TitleData where
  "gameA =
     \<lparr>TitleName = ''Game A'',
      ContentIDs = [''dlc0001''],
      Archived = [],
      TitleUpdatesKnown =
        [[''356a192b7913b04c54574d18c28d46e6395428ab'' \<mapsto> ''Title Update for Game A 1.0''],
         [''da4b9237bacccdf19c0760cab7aec4a8359010b0'' \<mapsto> ''Title Update for Game A 1.1'']]\<rparr>"

definition sampleCatalog :: catalog where
  "sampleCatalog = [''4d530064'' \<mapsto> gameA]"

definition contentTree :: node where
  "contentTree =
     Dir [(''4d530064'',
           Dir [(''$c'',
                 Dir [(''dlc0001'', Dir [(''contentmeta.xbx'', File (Inr []))]),
                      (''weird9999'', Dir [(''contentmeta.xbx'', File (Inr []))])])])]"

definition packagesTree :: "(string \<times> node) list" where
  "packagesTree =
     [(''dlc0001'', Dir [(''ContentMeta.xbx'', File (Inr []))]),
      (''dlc0002'', Dir [(''contentmeta.xbx'', Dir []), (''data.bin'', File (Inr []))]),
      (''dlc0003'', Dir []),
      (''readme.txt'', File (Inr []))]"

definition titleDir :: node where
  "titleDir =
     Dir [(''$c'', Dir [(''dlc0001'', Dir [(''contentmeta.xbx'', File (Inr []))])]),
          (''$u'',
           Dir [(''default.xbe'', File (Inr ''356a192b7913b04c54574d18c28d46e6395428ab''))])]"

definition unknownTitleDir :: "(string \<times> node) list" where
  "unknownTitleDir =
     [(''$u'', Dir [(''patch.xbe'', File (Inr ''356a192b7913b04c54574d18c28d46e6395428ab''))]),
      (''saves'', Dir [(''4d530064'', Dir [(''$u'', Dir [])])])]"

section \<open>Notions used to state the properties\<close>

text \<open>An entry \<open>name\<close> that exists in the listing \<open>names\<close> and is a directory.\<close>

definition dirAt :: "(string \<times> node) list \<Rightarrow> string \<Rightarrow> bool" where
  "dirAt names name = (case map_of names name of Some d \<Rightarrow> IsDir d | None \<Rightarrow> False)"

fun isEmit :: "action \<Rightarrow> bool" where
  "isEmit (Emit s ev) = True"
| "isEmit a = False"

fun isEnumFail :: "action \<Rightarrow> bool" where
  "isEnumFail (EnumFail p e) = True"
| "isEnumFail a = False"

fun isVisit :: "action \<Rightarrow> bool" where
  "isVisit (Visit p) = True"
| "isVisit a = False"

fun isGetSHA1 :: "action \<Rightarrow> bool" where
  "isGetSHA1 (GetSHA1 p) = True"
| "isGetSHA1 a = False"

text \<open>
  Following the words of the spec, not the code: a subdirectory of \<open>$c\<close> qualifies
  as a content package when at least one of its entries is not a directory and has
  a name that contains \<open>contentmeta.xbx\<close>, whatever the case of its letters.
\<close>

definition spec_qualifies :: "lowering \<Rightarrow> node \<Rightarrow> bool" where
  "spec_qualifies unicodeLower d =
     (case ReadDir d of
        Inl e \<Rightarrow> False
      | Inr entries \<Rightarrow>
          (\<exists>f \<in> set entries.
             \<not> IsDir (snd f) \<and> Contains (ToLower unicodeLower (fst f)) ''contentmeta.xbx''))"

text \<open>
  The outcome of a classification is the event without the path it carries; an
  action without its path keeps its kind and, for an event, the outcome. The outcome
  of a run is its actions without their paths, and its result.
\<close>

fun eventOutcome :: "event \<Rightarrow> event" where
  "eventOutcome (UnrecognizedDLC p) = UnrecognizedDLC []"
| "eventOutcome (UnrecognizedUpdates p) = UnrecognizedUpdates []"
| "eventOutcome (ContentUnknown p) = ContentUnknown []"
| "eventOutcome (ContentUnarchived titleName p) = ContentUnarchived titleName []"
| "eventOutcome (UpdateKnown titleName titleID name p fileHash)
     = UpdateKnown titleName titleID name [] fileHash"
| "eventOutcome (UpdateUnknown titleName titleID p fileHash)
     = UpdateUnknown titleName titleID [] fileHash"
| "eventOutcome (RootNotFound p) = RootNotFound p"
| "eventOutcome (TitleHeader titleName) = TitleHeader titleName"
| "eventOutcome (ContentArchived archivedName) = ContentArchived archivedName"
| "eventOutcome (HashError name e) = HashError name e"

fun pathless :: "action \<Rightarrow> action" where
  "pathless (Visit p) = Visit []"
| "pathless (EnumFail p e) = EnumFail [] e"
| "pathless (GetSHA1 p) = GetSHA1 []"
| "pathless (Emit s ev) = Emit s (eventOutcome ev)"

definition pathlessRun :: "action list \<times> error option \<Rightarrow> action list \<times> error option" where
  "pathlessRun R = (map pathless (fst R), snd R)"

text \<open>A directory entry whose enumeration fails.\<close>

definition unlistable :: "string \<times> node \<Rightarrow> bool" where
  "unlistable entry = (IsDir (snd entry) \<and> isl (ReadDir (snd entry)))"


text \<open>
  A run that is either free of enumeration failures and ends with no error or with
  \<open>SkipDir\<close>, or has exactly one enumeration failure, as its last action, and ends
  with the error of that failure.
\<close>

definition structural :: "action list \<times> error option \<Rightarrow> bool" where
  "structural R =
     (case snd R of
        None \<Rightarrow> list_all (\<lambda>a. \<not> isEnumFail a) (fst R)
      | Some SkipDir \<Rightarrow> list_all (\<lambda>a. \<not> isEnumFail a) (fst R)
      | Some (DirectoryNotFound p) \<Rightarrow> False
      | Some (OSError e) \<Rightarrow>
          fst R \<noteq> [] \<and> list_all (\<lambda>a. \<not> isEnumFail a) (butlast (fst R)) \<and>
          (case last (fst R) of EnumFail p e' \<Rightarrow> e' = e | _ \<Rightarrow> False))"

text \<open>
  The tree with everything beneath the unrecognized directories cut away: a
  directory whose name has 8 bytes and is not in the catalog keeps the names of its
  entries and whether each is a directory, and nothing else.
\<close>

definition stub :: "string \<times> node \<Rightarrow> string \<times> node" where
  "stub entry = (fst entry, if IsDir (snd entry) then Dir [] else File (Inl []))"

fun prune :: "lowering \<Rightarrow> catalog \<Rightarrow> string \<Rightarrow> node \<Rightarrow> node"
and prunes :: "lowering \<Rightarrow> catalog \<Rightarrow> (string \<times> node) list \<Rightarrow> (string \<times> node) list" where
  "prune unicodeLower titles name (File r) = File r"
| "prune unicodeLower titles name (NoList e) = NoList e"
| "prune unicodeLower titles name (Dir names) =
     (if length name = 8 \<and> titles (ToLower unicodeLower name) = None then Dir (map stub names)
      else Dir (prunes unicodeLower titles names))"
| "prunes unicodeLower titles [] = []"
| "prunes unicodeLower titles (entry # rest) =
     (fst entry, prune unicodeLower titles (fst entry) (snd entry)) # prunes unicodeLower titles rest"

text \<open>
  The paths of a tree that do not lie strictly beneath a directory whose name has 8
  bytes and is not in the catalog, in the order of a depth-first traversal.
\<close>

fun visible :: "lowering \<Rightarrow> catalog \<Rightarrow> string \<Rightarrow> string \<times> node \<Rightarrow> string list"
and visibles :: "lowering \<Rightarrow> catalog \<Rightarrow> string \<Rightarrow> (string \<times> node) list \<Rightarrow> string list" where
  "visible unicodeLower titles path (name, File r) = [path]"
| "visible unicodeLower titles path (name, NoList e) = [path]"
| "visible unicodeLower titles path (name, Dir names) =
     path # (if length name = 8 \<and> titles (ToLower unicodeLower name) = None then []
             else visibles unicodeLower titles path names)"
| "visibles unicodeLower titles path [] = []"
| "visibles unicodeLower titles path (entry # rest) =
     visible unicodeLower titles (Join path (fst entry)) entry @ visibles unicodeLower titles path rest"

section \<open>More sample data\<close>


definition updatesDir :: "(string \<times> node) list" where
  "updatesDir =
     [(''alpha.xbe'', File (Inr ''da39a3ee5e6b4b0d3255bfef95601890afd80709'')),
      (''bad.xbe'', File (Inl ''open dump/4d530064/$u/bad.xbe: permission denied'')),
      (''good.xbe'', File (Inr ''356a192b7913b04c54574d18c28d46e6395428ab''))]"

definition brokenTree :: node where
  "brokenTree =
     Dir [(''4d530064'', Dir [(''$u'', Dir updatesDir)]),
          (''locked'', NoList ''open dump/locked: permission denied''),
          (''notes'', Dir [(''4d530064'', Dir [])])]"

definition mixedTree :: node where
  "mixedTree =
     Dir [(''notes.txt'', File (Inr [])),
          (''yyyyyyyy'', Dir [(''saves'', Dir [(''slot1'', File (Inr []))])]),
          (''zzzzzzzz'', Dir unknownTitleDir)]"

text \<open>
  A stand-in for the lowering of names that are not ASCII, which knows one letter:
  it turns the bytes \<open>C3 80\<close> at the start of a name into \<open>C3 A0\<close>.
\<close>

definition latinLower :: lowering where
  "latinLower s =
     (case s of
        c # c' # r \<Rightarrow> if c = CHR 0xC3 \<and> c' = CHR 0x80 then c # CHR 0xA0 # r else s
      | _ \<Rightarrow> s)"

section \<open>Membership of a content identifier\<close>

lemma contains_set: "contains slice val = (val \<in> set slice)"
  by (induction slice) auto

lemma report_neq_Nil: "report guiEnabled ev \<noteq> []"
  by (simp add: report_def)

lemma report_inject: "(report guiEnabled ev = report guiEnabled ev') = (ev = ev')"
  by (auto simp: report_def)

text \<open>
  Claim C7. \<open>contains\<close> holds exactly when some element of the slice is equal to the
  value, and the content classifier reports a qualifying subdirectory as unknown
  exactly when the lowercase form of its name is not an element of \<open>ContentIDs\<close>. So
  an identifier that is only a part of a known one, or has a known one as a part,
  is not known.
\<close>

theorem contains_exact_match:
  "contains slice val = (val \<in> set slice) \<and>
   (classifyContent unicodeLower guiEnabled titleData directory subContentPath name
      = report guiEnabled (ContentUnknown subContentPath))
     = (ToLower unicodeLower name \<notin> set (ContentIDs titleData))"
proof -
  have "contains slice val = (val \<in> set slice)"
    by (induction slice) auto
  moreover have "(classifyContent unicodeLower guiEnabled titleData directory subContentPath name
      = report guiEnabled (ContentUnknown subContentPath))
     = (ToLower unicodeLower name \<notin> set (ContentIDs titleData))"
    by (simp add: classifyContent_def Let_def contains_set report_inject)
  ultimately show ?thesis by simp
qed

theorem contains_exact_match_witness:
  "contains [''dlc0001'', ''dlc0002''] ''dlc0002'' \<and>
   \<not> contains [''dlc0001'', ''dlc0002''] ''dlc000'' \<and>
   \<not> contains [''dlc0001'', ''dlc0002''] ''dlc00011'' \<and>
   classifyContent sampleLower False gameA ''dump'' ''dump/4d530064/$c/dlc000'' ''DLC000''
     = [Emit Console (ContentUnknown ''dump/4d530064/$c/dlc000'')]"
  using contains_exact_match [of "[''dlc0001'', ''dlc0002'']" "''dlc0002''" sampleLower False gameA
          "''dump''" "''dump/4d530064/$c/dlc000''" "''DLC000''"]
        contains_exact_match [of "[''dlc0001'', ''dlc0002'']" "''dlc000''"]
        contains_exact_match [of "[''dlc0001'', ''dlc0002'']" "''dlc00011''"]
  by (simp add: gameA_def ToLower_def ToLowerChar_def report_def)

section \<open>The update classifier after a match\<close>

lemmas run_defs =
  processUpdates_def processUpdates_part000_def processDLCContent_def classifyContent_def
  checkForContent_def walkFn_def probeDLC_def probeUpdates_def
  Join_def Clean_def Ext_def basename_def HasPrefix_def TrimPrefix_def
  ToLower_def ToLowerChar_def
  report_def logOutput_def reportKnown_def reportUnknown_def
  gameA_def sampleCatalog_def contentTree_def

text \<open>
  Claim C1. The code does not classify every \<open>.xbe\<close> file on its own. In
  \<open>fileparse.go\<close> the flag \<open>knownUpdateFound\<close> is never reset: after
  \<open>default.xbe\<close> has matched, \<open>other.xbe\<close>, whose digest is in no map, is hashed and
  nothing is reported for it. The copy in \<open>src/unnamed/part_000\<close> leaves the loop
  at the match and does not even hash \<open>other.xbe\<close>.
\<close>

theorem processUpdates_silent_after_match:
  "processUpdates False ''dump/4d530064/$u''
     (Dir [(''default.xbe'', File (Inr ''356a192b7913b04c54574d18c28d46e6395428ab'')),
           (''other.xbe'', File (Inr ''da39a3ee5e6b4b0d3255bfef95601890afd80709''))])
     gameA ''4d530064'' ''dump''
   = ([GetSHA1 ''dump/4d530064/$u/default.xbe'',
       Emit Console
         (UpdateKnown ''Game A'' ''4d530064'' ''Title Update for Game A 1.0''
            ''4d530064/$u/default.xbe'' ''356a192b7913b04c54574d18c28d46e6395428ab''),
       GetSHA1 ''dump/4d530064/$u/other.xbe''],
      None) \<and>
   processUpdates_part000 ''dump/4d530064/$u''
     (Dir [(''default.xbe'', File (Inr ''356a192b7913b04c54574d18c28d46e6395428ab'')),
           (''other.xbe'', File (Inr ''da39a3ee5e6b4b0d3255bfef95601890afd80709''))])
     gameA ''4d530064'' ''dump''
   = ([GetSHA1 ''dump/4d530064/$u/default.xbe'',
       Emit Console
         (UpdateKnown ''Game A'' ''4d530064'' ''Game A 1.0''
            ''4d530064/$u/default.xbe'' ''356a192b7913b04c54574d18c28d46e6395428ab'')],
      Returns None)"
  by (simp add: run_defs)

text \<open>
  Claim C2. A file whose digest is a key of \<open>TitleUpdatesKnown\<close> is not always
  reported as known. Here both digests are keys, each in its own map. In
  \<open>fileparse.go\<close> the stale flag ends the search for \<open>second.xbe\<close> after the first
  map, and nothing is reported for it. The copy in \<open>src/unnamed/part_000\<close> stops at
  the first match, and the name it reports is the catalog's name without its first
  17 bytes.
\<close>

theorem processUpdates_second_known_update_lost:
  "processUpdates False ''dump/4d530064/$u''
     (Dir [(''first.xbe'', File (Inr ''356a192b7913b04c54574d18c28d46e6395428ab'')),
           (''second.xbe'', File (Inr ''da4b9237bacccdf19c0760cab7aec4a8359010b0''))])
     gameA ''4d530064'' ''dump''
   = ([GetSHA1 ''dump/4d530064/$u/first.xbe'',
       Emit Console
         (UpdateKnown ''Game A'' ''4d530064'' ''Title Update for Game A 1.0''
            ''4d530064/$u/first.xbe'' ''356a192b7913b04c54574d18c28d46e6395428ab''),
       GetSHA1 ''dump/4d530064/$u/second.xbe''],
      None) \<and>
   processUpdates_part000 ''dump/4d530064/$u''
     (Dir [(''first.xbe'', File (Inr ''356a192b7913b04c54574d18c28d46e6395428ab'')),
           (''second.xbe'', File (Inr ''da4b9237bacccdf19c0760cab7aec4a8359010b0''))])
     gameA ''4d530064'' ''dump''
   = ([GetSHA1 ''dump/4d530064/$u/first.xbe'',
       Emit Console
         (UpdateKnown ''Game A'' ''4d530064'' ''Game A 1.0''
            ''4d530064/$u/first.xbe'' ''356a192b7913b04c54574d18c28d46e6395428ab'')],
      Returns None)"
  by (simp add: run_defs)

section \<open>The path of an unknown content package\<close>

text \<open>
  Claim C3. The event for an unknown content package carries the path with the scan
  root in front: the prefix is trimmed only after the unknown branch. In the scan of
  \<open>dump\<close> below, the known package \<open>dlc0001\<close> is reported with its path relative to
  the root and the unknown package \<open>weird9999\<close> with \<open>dump/\<close> still in front.
\<close>

theorem ContentUnknown_path_not_relative:
  "checkForContent sampleLower False sampleCatalog ''dump'' (Some contentTree)
   = ([Visit ''dump'',
       Visit ''dump/4d530064'',
       Emit Console (TitleHeader ''Game A''),
       Emit Console (ContentUnarchived ''Game A'' ''4d530064/$c/dlc0001''),
       Emit Console (ContentUnknown ''dump/4d530064/$c/weird9999''),
       Visit ''dump/4d530064/$c'',
       Visit ''dump/4d530064/$c/dlc0001'',
       Visit ''dump/4d530064/$c/dlc0001/contentmeta.xbx'',
       Visit ''dump/4d530064/$c/weird9999'',
       Visit ''dump/4d530064/$c/weird9999/contentmeta.xbx''],
      None)"
  by (simp add: run_defs)

section \<open>Letter case of a title directory\<close>

lemma walkFn_lower:
  assumes "length name1 = 8" and "length name2 = 8"
      and "ToLower unicodeLower name1 = ToLower unicodeLower name2"
  shows "walkFn unicodeLower guiEnabled titles directory path (name1, d) err
       = walkFn unicodeLower guiEnabled titles directory path (name2, d) err"
  using assms
  by (cases err) (simp_all add: walkFn_def probeDLC_def probeUpdates_def Let_def)

lemma walk_lower:
  assumes "length name1 = 8" and "length name2 = 8"
      and "ToLower unicodeLower name1 = ToLower unicodeLower name2"
  shows "walk unicodeLower guiEnabled titles directory path (name1, d)
       = walk unicodeLower guiEnabled titles directory path (name2, d)"
  by (cases d) (simp_all add: walkFn_lower [OF assms])

lemma pathlessRun_eq:
  "(pathlessRun R = pathlessRun R')
     = (map pathless (fst R) = map pathless (fst R') \<and> snd R = snd R')"
  by (simp add: pathlessRun_def)

lemma report_pathless: "map pathless (report guiEnabled ev) = report guiEnabled (eventOutcome ev)"
  by (simp add: report_def)

lemma classifyContent_pathless:
  "map pathless (classifyContent unicodeLower guiEnabled titleData directory p name)
     = map pathless (classifyContent unicodeLower guiEnabled titleData directory p' name)"
  by (simp add: classifyContent_def Let_def report_pathless)

lemma dlcLoop_pathless:
  "pathlessRun (dlcLoop unicodeLower guiEnabled subDirDLC titleData directory subContents)
     = pathlessRun (dlcLoop unicodeLower guiEnabled subDirDLC' titleData directory subContents)"
proof (induction subContents)
  case Nil
  show ?case by simp
next
  case (Cons s rest)
  note ih = Cons [unfolded pathlessRun_eq]
  show ?case
  proof (cases "snd s")
    case (File r)
    with Cons show ?thesis by simp
  next
    case (NoList e)
    then show ?thesis by (simp add: pathlessRun_def)
  next
    case (Dir entries)
    show ?thesis
    proof (cases "hasContentMetaXbx unicodeLower entries")
      case False
      with Dir Cons show ?thesis by simp
    next
      case True
      with Dir ih
        classifyContent_pathless
          [of unicodeLower guiEnabled titleData directory "Join subDirDLC (fst s)" "fst s"
              "Join subDirDLC' (fst s)"]
      show ?thesis by (simp add: pathlessRun_def Let_def)
    qed
  qed
qed

lemma processDLCContent_pathless:
  "pathlessRun
     (processDLCContent unicodeLower guiEnabled subDirDLC d titleData titleID directory)
     = pathlessRun
         (processDLCContent unicodeLower guiEnabled subDirDLC' d titleData titleID directory)"
proof (cases d)
  case (File r)
  then show ?thesis by (simp add: processDLCContent_def pathlessRun_def)
next
  case (NoList e)
  then show ?thesis by (simp add: processDLCContent_def pathlessRun_def)
next
  case (Dir subContents)
  then show ?thesis by (simp add: processDLCContent_def dlcLoop_pathless)
qed

lemma scanKnown_pathless:
  "map pathless
     (fst (scanKnown guiEnabled titleData titleID directory filePath fileHash found ms))
     = map pathless
         (fst (scanKnown guiEnabled titleData titleID directory filePath' fileHash found ms)) \<and>
   snd (scanKnown guiEnabled titleData titleID directory filePath fileHash found ms)
     = snd (scanKnown guiEnabled titleData titleID directory filePath' fileHash found ms)"
  by (induction ms) (auto simp: reportKnown_def Let_def split: option.splits)

lemma updatesLoop_pathless:
  "map pathless
     (updatesLoop guiEnabled subDirUpdates titleData titleID directory found files)
     = map pathless
         (updatesLoop guiEnabled subDirUpdates' titleData titleID directory found files)"
proof (induction files arbitrary: found)
  case Nil
  show ?case by simp
next
  case (Cons f files)
  show ?case
  proof (cases "getSHA1Hash (snd f)")
    case (Inl e)
    with Cons show ?thesis by (simp add: Let_def report_pathless)
  next
    case (Inr fileHash)
    with Cons
      scanKnown_pathless
        [of guiEnabled titleData titleID directory "Join subDirUpdates (fst f)" fileHash found
            "TitleUpdatesKnown titleData" "Join subDirUpdates' (fst f)"]
    show ?thesis by (simp add: Let_def reportUnknown_def)
  qed
qed

lemma processUpdates_pathless:
  "pathlessRun (processUpdates guiEnabled subDirUpdates d titleData titleID directory)
     = pathlessRun (processUpdates guiEnabled subDirUpdates' d titleData titleID directory)"
proof (cases d)
  case (File r)
  then show ?thesis by (simp add: processUpdates_def pathlessRun_def)
next
  case (NoList e)
  then show ?thesis by (simp add: processUpdates_def pathlessRun_def)
next
  case (Dir files)
  with updatesLoop_pathless
         [of guiEnabled subDirUpdates titleData titleID directory False files subDirUpdates']
  show ?thesis by (simp add: processUpdates_def pathlessRun_def)
qed

lemma probeDLC_pathless:
  "pathlessRun (probeDLC unicodeLower guiEnabled titles directory path info)
     = pathlessRun (probeDLC unicodeLower guiEnabled titles directory path' info)"
proof (cases "Stat (snd info) ''$c''")
  case None
  then show ?thesis by (simp add: probeDLC_def)
next
  case (Some subInfoDLC)
  show ?thesis
  proof (cases "titles (ToLower unicodeLower (fst info))")
    case None
    with Some show ?thesis
      by (simp add: probeDLC_def Let_def pathlessRun_def logOutput_def)
  next
    case (Some titleData)
    with \<open>Stat (snd info) ''$c'' = Some subInfoDLC\<close>
      processDLCContent_pathless
        [of unicodeLower guiEnabled "Join path ''$c''" subInfoDLC titleData
            "ToLower unicodeLower (fst info)" directory "Join path' ''$c''"]
    show ?thesis by (simp add: probeDLC_def Let_def)
  qed
qed

lemma probeUpdates_pathless:
  "pathlessRun (probeUpdates unicodeLower guiEnabled titles directory path info)
     = pathlessRun (probeUpdates unicodeLower guiEnabled titles directory path' info)"
proof (cases "Stat (snd info) ''$u''")
  case None
  then show ?thesis by (simp add: probeUpdates_def)
next
  case (Some subInfoUpdates)
  show ?thesis
  proof (cases "titles (ToLower unicodeLower (fst info))")
    case None
    with Some show ?thesis
      by (simp add: probeUpdates_def Let_def pathlessRun_def logOutput_def)
  next
    case (Some titleData)
    with \<open>Stat (snd info) ''$u'' = Some subInfoUpdates\<close>
      processUpdates_pathless
        [of guiEnabled "Join path ''$u''" subInfoUpdates titleData
            "ToLower unicodeLower (fst info)" directory "Join path' ''$u''"]
    show ?thesis by (simp add: probeUpdates_def Let_def)
  qed
qed

lemma walkFn_pathless:
  "pathlessRun (walkFn unicodeLower guiEnabled titles directory path info err)
     = pathlessRun (walkFn unicodeLower guiEnabled titles directory path' info err)"
proof (cases err)
  case (Some e)
  then show ?thesis by (simp add: walkFn_def)
next
  case None
  let ?c = "probeDLC unicodeLower guiEnabled titles directory path info"
  let ?c' = "probeDLC unicodeLower guiEnabled titles directory path' info"
  let ?u = "probeUpdates unicodeLower guiEnabled titles directory path info"
  let ?u' = "probeUpdates unicodeLower guiEnabled titles directory path' info"
  have c: "map pathless (fst ?c) = map pathless (fst ?c')" "snd ?c = snd ?c'"
    using probeDLC_pathless [of unicodeLower guiEnabled titles directory path info path']
    by (simp_all add: pathlessRun_eq)
  have u: "map pathless (fst ?u) = map pathless (fst ?u')" "snd ?u = snd ?u'"
    using probeUpdates_pathless [of unicodeLower guiEnabled titles directory path info path']
    by (simp_all add: pathlessRun_eq)
  from None c u show ?thesis
    by (simp add: walkFn_def Let_def pathlessRun_def report_pathless split: option.splits)
qed

lemma walk_pathless:
  "pathlessRun (walk unicodeLower guiEnabled titles directory path entry)
     = pathlessRun (walk unicodeLower guiEnabled titles directory path' entry)"
  "pathlessRun (walks unicodeLower guiEnabled titles directory path entries)
     = pathlessRun (walks unicodeLower guiEnabled titles directory path' entries)"
proof (induction unicodeLower guiEnabled titles directory path entry and
        unicodeLower guiEnabled titles directory path entries
        arbitrary: path' and path' rule: walk_walks.induct)
  case (1 unicodeLower guiEnabled titles directory path name r)
  show ?case by (simp add: walkFn_pathless [of _ _ _ _ path _ _ path'])
next
  case (2 unicodeLower guiEnabled titles directory path name e)
  show ?case by (simp add: walkFn_def pathlessRun_def)
next
  case (3 unicodeLower guiEnabled titles directory path name names)
  let ?r = "walkFn unicodeLower guiEnabled titles directory path (name, Dir names) None"
  let ?r' = "walkFn unicodeLower guiEnabled titles directory path' (name, Dir names) None"
  have r: "map pathless (fst ?r) = map pathless (fst ?r')" "snd ?r = snd ?r'"
    using walkFn_pathless
            [of unicodeLower guiEnabled titles directory path "(name, Dir names)" None path']
    by (simp_all add: pathlessRun_eq)
  show ?case
  proof (cases "snd ?r \<noteq> None")
    case True
    with r show ?thesis by (simp add: Let_def pathlessRun_def)
  next
    case False
    with "3.IH" [of ?r path'] have
      "pathlessRun (walks unicodeLower guiEnabled titles directory path names)
         = pathlessRun (walks unicodeLower guiEnabled titles directory path' names)"
      by simp
    with False r show ?thesis by (simp add: Let_def pathlessRun_def)
  qed
next
  case (4 unicodeLower guiEnabled titles directory path)
  show ?case by simp
next
  case (5 unicodeLower guiEnabled titles directory path entry rest)
  let ?r = "walk unicodeLower guiEnabled titles directory (Join path (fst entry)) entry"
  let ?r' = "walk unicodeLower guiEnabled titles directory (Join path' (fst entry)) entry"
  have r: "map pathless (fst ?r) = map pathless (fst ?r')" "snd ?r = snd ?r'"
    using "5.IH"(1) [OF refl, of "Join path' (fst entry)"]
    by (simp_all add: pathlessRun_eq)
  show ?case
  proof (cases "snd ?r \<noteq> None \<and> (\<not> IsDir (snd entry) \<or> snd ?r \<noteq> Some SkipDir)")
    case True
    with r show ?thesis by (auto simp: Let_def pathlessRun_def)
  next
    case False
    with "5.IH"(2) [OF refl refl, of path'] have
      "pathlessRun (walks unicodeLower guiEnabled titles directory path rest)
         = pathlessRun (walks unicodeLower guiEnabled titles directory path' rest)"
      by simp
    with False r show ?thesis by (auto simp: Let_def pathlessRun_def)
  qed
qed

text \<open>
  Claim C6. Take two names of 8 bytes with the same lowercase form, that is, two
  names that differ only in the case of their letters, and a directory with one or
  the other name in the same parent. The walk of the directory under the first name
  and under the second name, each on its own path, look the title up under the same
  key and give the same actions in the same order and the same result, up to the
  paths that the actions carry (the two paths differ as the names do).
\<close>

theorem title_lookup_ignores_case:
  assumes "length name1 = 8" and "length name2 = 8"
      and "ToLower unicodeLower name1 = ToLower unicodeLower name2"
  shows "map pathless
           (fst (walk unicodeLower guiEnabled titles directory (Join parent name1) (name1, d)))
         = map pathless
             (fst (walk unicodeLower guiEnabled titles directory (Join parent name2)
                     (name2, d))) \<and>
         snd (walk unicodeLower guiEnabled titles directory (Join parent name1) (name1, d))
         = snd (walk unicodeLower guiEnabled titles directory (Join parent name2) (name2, d))"
proof -
  have "walk unicodeLower guiEnabled titles directory (Join parent name1) (name1, d)
          = walk unicodeLower guiEnabled titles directory (Join parent name1) (name2, d)"
    by (rule walk_lower [OF assms])
  moreover have
    "pathlessRun (walk unicodeLower guiEnabled titles directory (Join parent name1) (name2, d))
       = pathlessRun
           (walk unicodeLower guiEnabled titles directory (Join parent name2) (name2, d))"
    by (rule walk_pathless(1))
  ultimately show ?thesis by (simp add: pathlessRun_eq)
qed

theorem title_lookup_ignores_case_witness:
  "length ''4D530064'' = 8 \<and> length ''4d530064'' = 8 \<and>
   ToLower sampleLower ''4D530064'' = ToLower sampleLower ''4d530064'' \<and>
   ToLower sampleLower ''ABCD1234'' = ''abcd1234'' \<and>
   walk sampleLower False sampleCatalog ''dump'' (Join ''dump'' ''4D530064'')
     (''4D530064'', titleDir)
     = ([Visit ''dump/4D530064'',
         Emit Console (TitleHeader ''Game A''),
         Emit Console (ContentUnarchived ''Game A'' ''4D530064/$c/dlc0001''),
         GetSHA1 ''dump/4D530064/$u/default.xbe'',
         Emit Console
           (UpdateKnown ''Game A'' ''4d530064'' ''Title Update for Game A 1.0''
              ''4D530064/$u/default.xbe'' ''356a192b7913b04c54574d18c28d46e6395428ab''),
         Visit ''dump/4D530064/$c'',
         Visit ''dump/4D530064/$c/dlc0001'',
         Visit ''dump/4D530064/$c/dlc0001/contentmeta.xbx'',
         Visit ''dump/4D530064/$u'',
         Visit ''dump/4D530064/$u/default.xbe''],
        None) \<and>
   map pathless
     (fst (walk sampleLower False sampleCatalog ''dump'' (Join ''dump'' ''4d530064'')
             (''4d530064'', titleDir)))
     = [Visit [],
        Emit Console (TitleHeader ''Game A''),
        Emit Console (ContentUnarchived ''Game A'' []),
        GetSHA1 [],
        Emit Console
          (UpdateKnown ''Game A'' ''4d530064'' ''Title Update for Game A 1.0'' []
             ''356a192b7913b04c54574d18c28d46e6395428ab''),
        Visit [], Visit [], Visit [], Visit [], Visit []] \<and>
   snd (walk sampleLower False sampleCatalog ''dump'' (Join ''dump'' ''4d530064'')
          (''4d530064'', titleDir)) = None \<and>
   ToLower latinLower [CHR 0xC3, CHR 0x80, CHR ''b'', CHR ''c'', CHR ''d'', CHR ''e'',
                       CHR ''f'', CHR ''g'']
     = [CHR 0xC3, CHR 0xA0, CHR ''b'', CHR ''c'', CHR ''d'', CHR ''e'', CHR ''f'', CHR ''g'']"
proof -
  have h1: "length ''4D530064'' = 8" and h2: "length ''4d530064'' = 8"
    by simp_all
  have h3: "ToLower sampleLower ''4D530064'' = ToLower sampleLower ''4d530064''"
    by (simp add: ToLower_def ToLowerChar_def)
  have u: "walk sampleLower False sampleCatalog ''dump'' (Join ''dump'' ''4D530064'')
     (''4D530064'', titleDir)
     = ([Visit ''dump/4D530064'',
         Emit Console (TitleHeader ''Game A''),
         Emit Console (ContentUnarchived ''Game A'' ''4D530064/$c/dlc0001''),
         GetSHA1 ''dump/4D530064/$u/default.xbe'',
         Emit Console
           (UpdateKnown ''Game A'' ''4d530064'' ''Title Update for Game A 1.0''
              ''4D530064/$u/default.xbe'' ''356a192b7913b04c54574d18c28d46e6395428ab''),
         Visit ''dump/4D530064/$c'',
         Visit ''dump/4D530064/$c/dlc0001'',
         Visit ''dump/4D530064/$c/dlc0001/contentmeta.xbx'',
         Visit ''dump/4D530064/$u'',
         Visit ''dump/4D530064/$u/default.xbe''],
        None)"
    by (simp add: run_defs titleDir_def)
  note t = title_lookup_ignores_case
             [where unicodeLower = sampleLower and guiEnabled = False
                and titles = sampleCatalog and directory = "''dump''" and parent = "''dump''"
                and d = titleDir, OF h1 h2 h3]
  from t u have l:
    "map pathless
       (fst (walk sampleLower False sampleCatalog ''dump'' (Join ''dump'' ''4d530064'')
               (''4d530064'', titleDir)))
       = [Visit [],
          Emit Console (TitleHeader ''Game A''),
          Emit Console (ContentUnarchived ''Game A'' []),
          GetSHA1 [],
          Emit Console
            (UpdateKnown ''Game A'' ''4d530064'' ''Title Update for Game A 1.0'' []
               ''356a192b7913b04c54574d18c28d46e6395428ab''),
          Visit [], Visit [], Visit [], Visit [], Visit []]"
    and r: "snd (walk sampleLower False sampleCatalog ''dump'' (Join ''dump'' ''4d530064'')
                   (''4d530064'', titleDir)) = None"
    by simp_all
  have n: "ToLower latinLower [CHR 0xC3, CHR 0x80, CHR ''b'', CHR ''c'', CHR ''d'', CHR ''e'',
                       CHR ''f'', CHR ''g'']
     = [CHR 0xC3, CHR 0xA0, CHR ''b'', CHR ''c'', CHR ''d'', CHR ''e'', CHR ''f'', CHR ''g'']"
    by (simp add: ToLower_def latinLower_def)
  have a: "ToLower sampleLower ''ABCD1234'' = ''abcd1234''"
    by (simp add: ToLower_def ToLowerChar_def)
  from h1 h2 h3 a u l r n show ?thesis by (intro conjI)
qed

section \<open>Directories that the catalog does not know\<close>

lemma walkFn_unrecognized:
  assumes "length name = 8" and "titles (ToLower unicodeLower name) = None"
  shows "walkFn unicodeLower guiEnabled titles directory path (name, Dir names) None =
     (Visit path #
        (if dirAt names ''$c''
         then [Emit (if guiEnabled then Gui else Console) (UnrecognizedDLC (Join path ''$c''))]
         else []) @
        (if dirAt names ''$u''
         then [Emit (if guiEnabled then Gui else Console)
                 (UnrecognizedUpdates (Join path ''$u''))]
         else []),
      Some SkipDir)"
  using assms
  by (auto simp: walkFn_def probeDLC_def probeUpdates_def dirAt_def logOutput_def
           split: option.splits)

text \<open>
  Claim C4. For a directory that the walk reaches and can list, whose name has 8
  bytes and whose lowercase form is not a key of the catalog, the walk of the
  directory is the call of the walk function on it and nothing more: one event for
  \<open>$c\<close> if it exists and is a directory, one event for \<open>$u\<close> likewise, no call
  of \<open>getSHA1Hash\<close>, and the result \<open>SkipDir\<close>, after which the loop of the
  parent goes on with the next entry.
\<close>

theorem unrecognized_directory_flagged_and_skipped:
  assumes "length name = 8" and "titles (ToLower unicodeLower name) = None"
  shows "walk unicodeLower guiEnabled titles directory path (name, Dir names) =
     (Visit path #
        (if dirAt names ''$c''
         then [Emit (if guiEnabled then Gui else Console) (UnrecognizedDLC (Join path ''$c''))]
         else []) @
        (if dirAt names ''$u''
         then [Emit (if guiEnabled then Gui else Console)
                 (UnrecognizedUpdates (Join path ''$u''))]
         else []),
      Some SkipDir) \<and>
     list_all (\<lambda>a. \<not> isGetSHA1 a)
       (fst (walk unicodeLower guiEnabled titles directory path (name, Dir names))) \<and>
     walks unicodeLower guiEnabled titles directory parent ((name, Dir names) # rest) =
       (fst (walk unicodeLower guiEnabled titles directory (Join parent name) (name, Dir names))
          @ fst (walks unicodeLower guiEnabled titles directory parent rest),
        snd (walks unicodeLower guiEnabled titles directory parent rest))"
  using assms by (simp add: walkFn_unrecognized Let_def)

theorem unrecognized_directory_flagged_and_skipped_witness:
  "length ''zzzzzzzz'' = 8 \<and> sampleCatalog (ToLower sampleLower ''zzzzzzzz'') = None \<and>
   walk sampleLower False sampleCatalog ''dump'' ''dump/zzzzzzzz'' (''zzzzzzzz'', Dir unknownTitleDir)
     = ([Visit ''dump/zzzzzzzz'', Emit Console (UnrecognizedUpdates ''dump/zzzzzzzz/$u'')],
        Some SkipDir) \<and>
   walks sampleLower False sampleCatalog ''dump'' ''dump'' [(''zzzzzzzz'', Dir unknownTitleDir)]
     = ([Visit ''dump/zzzzzzzz'', Emit Console (UnrecognizedUpdates ''dump/zzzzzzzz/$u'')],
        None)"
proof -
  have h1: "length ''zzzzzzzz'' = 8" by simp
  have h2: "sampleCatalog (ToLower sampleLower ''zzzzzzzz'') = None"
    by (simp add: run_defs)
  show ?thesis
    using h1 h2
      unrecognized_directory_flagged_and_skipped
        [where unicodeLower = sampleLower and name = "''zzzzzzzz''" and titles = sampleCatalog
           and guiEnabled = False
           and directory = "''dump''" and path = "''dump/zzzzzzzz''"
           and names = unknownTitleDir and parent = "''dump''" and rest = "[]", OF h1 h2]
    by (simp add: dirAt_def unknownTitleDir_def Join_def Clean_def)
qed

section \<open>Content packages\<close>

lemma hasContentMetaXbx_iff:
  "hasContentMetaXbx unicodeLower entries =
     (\<exists>f \<in> set entries. \<not> IsDir (snd f) \<and> Contains (ToLower unicodeLower (fst f)) ''contentmeta.xbx'')"
  by (induction entries) auto

lemma classifyContent_all_Emit:
  "filter isEmit (classifyContent unicodeLower guiEnabled titleData directory p name)
     = classifyContent unicodeLower guiEnabled titleData directory p name"
  by (simp add: classifyContent_def report_def Let_def)

lemma dlcLoop_events:
  "filter isEmit (fst (dlcLoop unicodeLower guiEnabled subDirDLC titleData directory subContents)) =
     concat (map (\<lambda>s. classifyContent unicodeLower guiEnabled titleData directory
                          (Join subDirDLC (fst s)) (fst s))
               (filter (\<lambda>s. IsDir (snd s) \<and> spec_qualifies unicodeLower (snd s))
                  (takeWhile (\<lambda>s. \<not> unlistable s) subContents)))"
proof (induction subContents)
  case Nil
  show ?case by simp
next
  case (Cons s rest)
  show ?case
  proof (cases "snd s")
    case (File r)
    with Cons show ?thesis by (simp add: unlistable_def)
  next
    case (NoList e)
    then show ?thesis by (simp add: unlistable_def)
  next
    case (Dir entries)
    with Cons show ?thesis
      by (auto simp: unlistable_def spec_qualifies_def hasContentMetaXbx_iff
            classifyContent_all_Emit Let_def)
  qed
qed

text \<open>
  Claim C5. What the content classifier emits for the entries of \<open>$c\<close> is, in
  order, the classification of each subdirectory that has an entry which is not a
  directory and whose name contains \<open>contentmeta.xbx\<close> in any letter case, up to the
  first subdirectory that cannot be listed (where the scan ends). An entry that is
  not a directory, and a subdirectory without such a file, contribute no event.
\<close>

theorem content_events_only_for_packages:
  "filter isEmit
     (fst (processDLCContent unicodeLower guiEnabled subDirDLC (Dir subContents) titleData titleID
             directory)) =
     concat (map (\<lambda>s. classifyContent unicodeLower guiEnabled titleData directory
                          (Join subDirDLC (fst s)) (fst s))
               (filter (\<lambda>s. IsDir (snd s) \<and> spec_qualifies unicodeLower (snd s))
                  (takeWhile (\<lambda>s. \<not> unlistable s) subContents)))"
  by (simp add: processDLCContent_def dlcLoop_events)

theorem content_events_only_for_packages_witness:
  "filter isEmit
     (fst (processDLCContent sampleLower False ''dump/4d530064/$c'' (Dir packagesTree) gameA
             ''4d530064'' ''dump''))
     = [Emit Console (ContentUnarchived ''Game A'' ''4d530064/$c/dlc0001'')] \<and>
   \<not> spec_qualifies sampleLower (Dir [(''contentmeta.xbx'', Dir []), (''data.bin'', File (Inr []))])"
  using content_events_only_for_packages
          [of sampleLower False "''dump/4d530064/$c''" packagesTree gameA "''4d530064''"
             "''dump''"]
  by (simp add: run_defs packagesTree_def spec_qualifies_def unlistable_def)

section \<open>The slice of the display name in \<open>src/unnamed/part_000\<close>\<close>









section \<open>Failures that end a scan\<close>

lemma report_noFail: "list_all (\<lambda>a. \<not> isEnumFail a) (report guiEnabled ev)"
  by (simp add: report_def)

lemma logOutput_noFail: "list_all (\<lambda>a. \<not> isEnumFail a) (logOutput guiEnabled ev)"
  by (simp add: logOutput_def)

lemma classifyContent_noFail:
  "list_all (\<lambda>a. \<not> isEnumFail a) (classifyContent unicodeLower guiEnabled titleData directory p name)"
  by (simp add: classifyContent_def Let_def report_noFail)

lemma scanKnown_noFail:
  "list_all (\<lambda>a. \<not> isEnumFail a)
     (fst (scanKnown guiEnabled titleData titleID directory filePath fileHash found ms))"
  by (induction ms) (auto simp: reportKnown_def Let_def split: option.splits)

lemma updatesLoop_noFail:
  "list_all (\<lambda>a. \<not> isEnumFail a)
     (updatesLoop guiEnabled subDirUpdates titleData titleID directory found files)"
proof (induction files arbitrary: found)
  case Nil
  show ?case by simp
next
  case (Cons f files)
  show ?case
    by (cases "getSHA1Hash (snd f)")
       (simp_all add: Cons Let_def report_noFail scanKnown_noFail reportUnknown_def)
qed

lemma structural_append:
  assumes "list_all (\<lambda>a. \<not> isEnumFail a) t1" and "structural (t2, r)"
  shows "structural (t1 @ t2, r)"
proof (cases r)
  case None
  with assms show ?thesis by (simp add: structural_def)
next
  case (Some err)
  with assms show ?thesis
    by (cases err) (auto simp: structural_def butlast_append)
qed

lemma structural_noFail:
  assumes "structural R" and "snd R = None \<or> snd R = Some SkipDir"
  shows "list_all (\<lambda>a. \<not> isEnumFail a) (fst R)"
  using assms by (auto simp: structural_def)

lemma structural_None: "structural (t, None) = list_all (\<lambda>a. \<not> isEnumFail a) t"
  by (simp add: structural_def)

lemma structural_fail: "structural ([EnumFail p e], Some (OSError e))"
  by (simp add: structural_def)

lemma dlcLoop_structural:
  "structural (dlcLoop unicodeLower guiEnabled subDirDLC titleData directory subContents) \<and>
   snd (dlcLoop unicodeLower guiEnabled subDirDLC titleData directory subContents) \<noteq> Some SkipDir"
proof (induction subContents)
  case Nil
  show ?case by (simp add: structural_def)
next
  case (Cons s rest)
  let ?r = "dlcLoop unicodeLower guiEnabled subDirDLC titleData directory rest"
  have ih: "structural (fst ?r, snd ?r)" "snd ?r \<noteq> Some SkipDir" using Cons by simp_all
  show ?case
  proof (cases "snd s")
    case (File r)
    with Cons show ?thesis by simp
  next
    case (NoList e)
    then show ?thesis by (simp add: structural_fail)
  next
    case (Dir entries)
    show ?thesis
    proof (cases "hasContentMetaXbx unicodeLower entries")
      case False
      with Dir Cons show ?thesis by simp
    next
      case True
      with Dir ih structural_append [OF classifyContent_noFail ih(1)]
      show ?thesis by (simp add: Let_def)
    qed
  qed
qed

lemma processDLCContent_structural:
  "structural (processDLCContent unicodeLower guiEnabled subDirDLC d titleData titleID directory) \<and>
   snd (processDLCContent unicodeLower guiEnabled subDirDLC d titleData titleID directory) \<noteq> Some SkipDir"
  by (cases d) (simp_all add: processDLCContent_def dlcLoop_structural structural_fail)

lemma processUpdates_structural:
  "structural (processUpdates guiEnabled subDirUpdates d titleData titleID directory) \<and>
   snd (processUpdates guiEnabled subDirUpdates d titleData titleID directory) \<noteq> Some SkipDir"
  by (cases d) (simp_all add: processUpdates_def structural_fail, simp add: structural_def updatesLoop_noFail)

lemma probeDLC_structural:
  "structural (probeDLC unicodeLower guiEnabled titles directory path info) \<and>
   snd (probeDLC unicodeLower guiEnabled titles directory path info) \<noteq> Some SkipDir"
  by (simp add: probeDLC_def Let_def processDLCContent_structural structural_None
        logOutput_noFail split: option.splits)

lemma probeUpdates_structural:
  "structural (probeUpdates unicodeLower guiEnabled titles directory path info) \<and>
   snd (probeUpdates unicodeLower guiEnabled titles directory path info) \<noteq> Some SkipDir"
  by (simp add: probeUpdates_def Let_def processUpdates_structural structural_None
        logOutput_noFail split: option.splits)


lemma walkFn_structural:
  "structural (walkFn unicodeLower guiEnabled titles directory path info None)"
proof (cases "IsDir (snd info) \<and> length (fst info) = 8")
  case False
  then show ?thesis by (auto simp: walkFn_def structural_None)
next
  case True
  let ?c = "probeDLC unicodeLower guiEnabled titles directory path info"
  let ?u = "probeUpdates unicodeLower guiEnabled titles directory path info"
  let ?h = "case titles (ToLower unicodeLower (fst info)) of
              Some titleData \<Rightarrow> report guiEnabled (TitleHeader (TitleName titleData))
            | None \<Rightarrow> []"
  have h: "list_all (\<lambda>a. \<not> isEnumFail a) (Visit path # ?h)"
    by (simp add: report_noFail split: option.splits)
  have c: "structural (fst ?c, snd ?c)" and u: "structural (fst ?u, snd ?u)"
    using probeDLC_structural [of unicodeLower guiEnabled titles directory path info]
          probeUpdates_structural [of unicodeLower guiEnabled titles directory path info] by simp_all
  show ?thesis
  proof (cases "snd ?c \<noteq> None")
    case True
    with \<open>IsDir (snd info) \<and> length (fst info) = 8\<close> structural_append [OF h c]
    show ?thesis by (simp add: walkFn_def Let_def)
  next
    case False
    then have cn: "list_all (\<lambda>a. \<not> isEnumFail a) (Visit path # ?h @ fst ?c)"
      using h c by (simp add: structural_def)
    show ?thesis
    proof (cases "snd ?u \<noteq> None")
      case True
      with False \<open>IsDir (snd info) \<and> length (fst info) = 8\<close> structural_append [OF cn u]
      show ?thesis by (simp add: walkFn_def Let_def)
    next
      case un: False
      then have "list_all (\<lambda>a. \<not> isEnumFail a) (Visit path # ?h @ fst ?c @ fst ?u)"
        using cn u by (simp add: structural_def)
      with False un \<open>IsDir (snd info) \<and> length (fst info) = 8\<close>
      show ?thesis by (simp add: walkFn_def Let_def structural_def)
    qed
  qed
qed

lemma walk_structural:
  "structural (walk unicodeLower guiEnabled titles directory path entry)"
  "structural (walks unicodeLower guiEnabled titles directory path entries)"
proof (induction unicodeLower guiEnabled titles directory path entry and
        unicodeLower guiEnabled titles directory path entries
        rule: walk_walks.induct)
  case (1 unicodeLower guiEnabled titles directory path name r)
  show ?case by (simp add: walkFn_structural)
next
  case (2 unicodeLower guiEnabled titles directory path name e)
  show ?case by (simp add: walkFn_def structural_def)
next
  case (3 unicodeLower guiEnabled titles directory path name names)
  let ?r = "walkFn unicodeLower guiEnabled titles directory path (name, Dir names) None"
  have r: "structural ?r" by (rule walkFn_structural)
  show ?case
  proof (cases "snd ?r \<noteq> None")
    case True
    with r show ?thesis by (simp add: Let_def)
  next
    case False
    then have w: "structural (walks unicodeLower guiEnabled titles directory path names)"
      using "3.IH" by simp
    have "list_all (\<lambda>a. \<not> isEnumFail a) (fst ?r)"
      using structural_noFail [OF r] False by simp
    from structural_append [OF this, of "fst (walks unicodeLower guiEnabled titles directory path names)"
            "snd (walks unicodeLower guiEnabled titles directory path names)"] w False
    show ?thesis by (simp add: Let_def)
  qed
next
  case (4 unicodeLower guiEnabled titles directory path)
  show ?case by (simp add: structural_None)
next
  case (5 unicodeLower guiEnabled titles directory path entry rest)
  let ?r = "walk unicodeLower guiEnabled titles directory (Join path (fst entry)) entry"
  let ?w = "walks unicodeLower guiEnabled titles directory path rest"
  have r: "structural ?r" using "5.IH"(1) by simp
  show ?case
  proof (cases "snd ?r \<noteq> None \<and> (\<not> IsDir (snd entry) \<or> snd ?r \<noteq> Some SkipDir)")
    case True
    with r show ?thesis by (simp add: Let_def)
  next
    case False
    then have w: "structural (fst ?w, snd ?w)" using "5.IH"(2) by simp
    have "list_all (\<lambda>a. \<not> isEnumFail a) (fst ?r)"
      using structural_noFail [OF r] False by auto
    from structural_append [OF this w] False
    show ?thesis by (auto simp: Let_def)
  qed
qed

lemma structural_OSError:
  assumes "structural (t, Some (OSError e'))"
  shows "\<exists>ys q. t = ys @ [EnumFail q e'] \<and> list_all (\<lambda>a. \<not> isEnumFail a) ys"
proof -
  from assms have ne: "t \<noteq> []"
    and bl: "list_all (\<lambda>a. \<not> isEnumFail a) (butlast t)"
    and la: "case last t of EnumFail q e'' \<Rightarrow> e'' = e' | _ \<Rightarrow> False"
    by (simp_all add: structural_def)
  from la obtain q where "last t = EnumFail q e'"
    by (cases "last t") simp_all
  with ne have "t = butlast t @ [EnumFail q e']"
    by (metis append_butlast_last_id)
  with bl show ?thesis by blast
qed

lemma structural_EnumFail:
  assumes "structural (t, r)" and "EnumFail p e \<in> set t"
  shows "last t = EnumFail p e \<and> r = Some (OSError e)"
proof (cases r)
  case None
  with assms show ?thesis by (auto simp: structural_def list_all_iff)
next
  case (Some err)
  show ?thesis
  proof (cases err)
    case SkipDir
    with Some assms show ?thesis by (auto simp: structural_def list_all_iff)
  next
    case (DirectoryNotFound q)
    with Some assms show ?thesis by (simp add: structural_def)
  next
    case (OSError e')
    with Some assms(1) have "structural (t, Some (OSError e'))" by simp
    from structural_OSError [OF this] obtain ys q
      where t: "t = ys @ [EnumFail q e']"
        and ys: "list_all (\<lambda>a. \<not> isEnumFail a) ys"
      by blast
    from ys have "EnumFail p e \<notin> set ys" by (auto simp: list_all_iff)
    with assms(2) t have "EnumFail p e = EnumFail q e'" by simp
    with t Some OSError show ?thesis by simp
  qed
qed

lemma structural_error:
  assumes "structural (t, r)" and "r \<noteq> None" and "r \<noteq> Some SkipDir"
  shows "\<exists>p e. EnumFail p e \<in> set t"
proof -
  from assms(2) obtain err where r: "r = Some err" by (cases r) simp_all
  show ?thesis
  proof (cases err)
    case SkipDir
    with r assms(3) show ?thesis by simp
  next
    case (DirectoryNotFound q)
    with r assms(1) show ?thesis by (simp add: structural_def)
  next
    case (OSError e')
    with r assms(1) have "structural (t, Some (OSError e'))" by simp
    from structural_OSError [OF this] obtain ys q where "t = ys @ [EnumFail q e']"
      by blast
    then have "EnumFail q e' \<in> set t" by simp
    then show ?thesis by blast
  qed
qed

lemma report_noHash: "filter isGetSHA1 (report guiEnabled ev) = []"
  by (simp add: report_def)

lemma scanKnown_noHash:
  "filter isGetSHA1
     (fst (scanKnown guiEnabled titleData titleID directory filePath fileHash found ms)) = []"
  by (induction ms) (auto simp: reportKnown_def Let_def split: option.splits)

lemma updatesLoop_hashes:
  "filter isGetSHA1
     (updatesLoop guiEnabled subDirUpdates titleData titleID directory found files)
     = map (\<lambda>f. GetSHA1 (Join subDirUpdates (fst f)))
         (filter (\<lambda>f. Ext (fst f) = ''.xbe'') files)"
proof (induction files arbitrary: found)
  case Nil
  show ?case by simp
next
  case (Cons f files)
  show ?case
    by (cases "getSHA1Hash (snd f)")
       (simp_all add: Cons Let_def report_noHash scanKnown_noHash reportUnknown_def)
qed

lemma updatesLoop_append:
  "\<exists>found'. \<forall>files.
      updatesLoop guiEnabled subDirUpdates titleData titleID directory found (before @ files)
        = updatesLoop guiEnabled subDirUpdates titleData titleID directory found before
            @ updatesLoop guiEnabled subDirUpdates titleData titleID directory found' files"
proof (induction before arbitrary: found)
  case Nil
  show ?case by (rule exI [of _ found]) simp
next
  case (Cons b before)
  show ?case
  proof (cases "Ext (fst b) = ''.xbe''")
    case False
    from Cons [of found] obtain found' where
      "\<forall>files.
         updatesLoop guiEnabled subDirUpdates titleData titleID directory found (before @ files)
           = updatesLoop guiEnabled subDirUpdates titleData titleID directory found before
               @ updatesLoop guiEnabled subDirUpdates titleData titleID directory found' files"
      by blast
    with False show ?thesis by auto
  next
    case True
    show ?thesis
    proof (cases "getSHA1Hash (snd b)")
      case (Inl e)
      from Cons [of found] obtain found' where
        "\<forall>files.
           updatesLoop guiEnabled subDirUpdates titleData titleID directory found
               (before @ files)
             = updatesLoop guiEnabled subDirUpdates titleData titleID directory found before
                 @ updatesLoop guiEnabled subDirUpdates titleData titleID directory found'
                     files"
        by blast
      with True Inl show ?thesis by (auto simp: Let_def)
    next
      case (Inr fileHash)
      let ?s = "scanKnown guiEnabled titleData titleID directory
                  (Join subDirUpdates (fst b)) fileHash found (TitleUpdatesKnown titleData)"
      from Cons [of "snd ?s"] obtain found' where
        "\<forall>files.
           updatesLoop guiEnabled subDirUpdates titleData titleID directory (snd ?s)
               (before @ files)
             = updatesLoop guiEnabled subDirUpdates titleData titleID directory (snd ?s)
                 before
                 @ updatesLoop guiEnabled subDirUpdates titleData titleID directory found'
                     files"
        by blast
      with True Inr show ?thesis by (auto simp: Let_def)
    qed
  qed
qed

lemma processUpdates_hash_failure:
  assumes "Ext (fst f) = ''.xbe''" and "getSHA1Hash (snd f) = Inl err"
  shows "\<exists>rest.
     fst (processUpdates guiEnabled subDirUpdates (Dir (before @ after)) titleData titleID
            directory)
       = fst (processUpdates guiEnabled subDirUpdates (Dir before) titleData titleID directory)
           @ rest \<and>
     fst (processUpdates guiEnabled subDirUpdates (Dir (before @ f # after)) titleData titleID
            directory)
       = fst (processUpdates guiEnabled subDirUpdates (Dir before) titleData titleID directory)
           @ GetSHA1 (Join subDirUpdates (fst f))
           # report guiEnabled (HashError (fst f) err) @ rest"
proof -
  from updatesLoop_append [of guiEnabled subDirUpdates titleData titleID directory False before]
  obtain found' where a:
    "\<And>files.
       updatesLoop guiEnabled subDirUpdates titleData titleID directory False (before @ files)
         = updatesLoop guiEnabled subDirUpdates titleData titleID directory False before
             @ updatesLoop guiEnabled subDirUpdates titleData titleID directory found' files"
    by blast
  let ?rest = "updatesLoop guiEnabled subDirUpdates titleData titleID directory found' after"
  have 1: "fst (processUpdates guiEnabled subDirUpdates (Dir (before @ after)) titleData
                  titleID directory)
       = fst (processUpdates guiEnabled subDirUpdates (Dir before) titleData titleID directory)
           @ ?rest"
    by (simp add: processUpdates_def a)
  have "updatesLoop guiEnabled subDirUpdates titleData titleID directory found' (f # after)
          = GetSHA1 (Join subDirUpdates (fst f))
            # report guiEnabled (HashError (fst f) err) @ ?rest"
    using assms by (simp add: Let_def)
  then have 2: "fst (processUpdates guiEnabled subDirUpdates (Dir (before @ f # after))
                       titleData titleID directory)
       = fst (processUpdates guiEnabled subDirUpdates (Dir before) titleData titleID directory)
           @ GetSHA1 (Join subDirUpdates (fst f))
           # report guiEnabled (HashError (fst f) err) @ ?rest"
    by (simp add: processUpdates_def a)
  from 1 2 show ?thesis by blast
qed

lemma brokenTree_run:
  "checkForContent sampleLower False sampleCatalog ''dump'' (Some brokenTree)
     = ([Visit ''dump'',
         Visit ''dump/4d530064'',
         Emit Console (TitleHeader ''Game A''),
         GetSHA1 ''dump/4d530064/$u/alpha.xbe'',
         Emit Console
           (UpdateUnknown ''Game A'' ''4d530064'' ''4d530064/$u/alpha.xbe''
              ''da39a3ee5e6b4b0d3255bfef95601890afd80709''),
         GetSHA1 ''dump/4d530064/$u/bad.xbe'',
         Emit Console
           (HashError ''bad.xbe'' ''open dump/4d530064/$u/bad.xbe: permission denied''),
         GetSHA1 ''dump/4d530064/$u/good.xbe'',
         Emit Console
           (UpdateKnown ''Game A'' ''4d530064'' ''Title Update for Game A 1.0''
              ''4d530064/$u/good.xbe'' ''356a192b7913b04c54574d18c28d46e6395428ab''),
         Visit ''dump/4d530064/$u'',
         Visit ''dump/4d530064/$u/alpha.xbe'',
         Visit ''dump/4d530064/$u/bad.xbe'',
         Visit ''dump/4d530064/$u/good.xbe'',
         EnumFail ''dump/locked'' ''open dump/locked: permission denied''],
        Some (OSError ''open dump/locked: permission denied''))"
  by (simp add: run_defs brokenTree_def updatesDir_def Let_def)

text \<open>
  Claim C8. When nothing exists at the scan root, \<open>checkForContent\<close> reports that
  and returns an error without visiting anything. When the root exists, a directory
  enumeration that fails is the last action of the scan and its error is the result,
  and the scan returns an error only in that case. A \<open>.xbe\<close> file that cannot be
  hashed is recovered from where it stands: what \<open>processUpdates\<close> does for a
  listing with such a file in it is what it does for the listing without the file,
  with the hashing of the file and its \<open>HashError\<close> event put in at the place of
  the file. So every \<open>.xbe\<close> file of the listing is hashed, whatever failed before
  it, and \<open>processUpdates\<close> on a directory that can be listed returns no error.
\<close>

theorem only_structural_failures_abort:
  "checkForContent unicodeLower guiEnabled titles directory None
     = ([Emit Console (RootNotFound directory)], Some (DirectoryNotFound directory)) \<and>
   (EnumFail p e
      \<in> set (fst (checkForContent unicodeLower guiEnabled titles directory (Some d))) \<longrightarrow>
      last (fst (checkForContent unicodeLower guiEnabled titles directory (Some d)))
        = EnumFail p e \<and>
      snd (checkForContent unicodeLower guiEnabled titles directory (Some d))
        = Some (OSError e)) \<and>
   (snd (checkForContent unicodeLower guiEnabled titles directory (Some d)) \<noteq> None \<longrightarrow>
      (\<exists>q msg. EnumFail q msg
          \<in> set (fst (checkForContent unicodeLower guiEnabled titles directory (Some d))))) \<and>
   (Ext (fst f) = ''.xbe'' \<and> getSHA1Hash (snd f) = Inl err \<longrightarrow>
      (\<exists>rest.
         fst (processUpdates guiEnabled subDirUpdates (Dir (before @ after)) titleData titleID
                directory)
           = fst (processUpdates guiEnabled subDirUpdates (Dir before) titleData titleID
                    directory) @ rest \<and>
         fst (processUpdates guiEnabled subDirUpdates (Dir (before @ f # after)) titleData
                titleID directory)
           = fst (processUpdates guiEnabled subDirUpdates (Dir before) titleData titleID
                    directory)
               @ GetSHA1 (Join subDirUpdates (fst f))
               # report guiEnabled (HashError (fst f) err) @ rest)) \<and>
   filter isGetSHA1
     (fst (processUpdates guiEnabled subDirUpdates (Dir files) titleData titleID directory))
     = map (\<lambda>f. GetSHA1 (Join subDirUpdates (fst f)))
         (filter (\<lambda>f. Ext (fst f) = ''.xbe'') files) \<and>
   snd (processUpdates guiEnabled subDirUpdates (Dir files) titleData titleID directory) = None"
proof -
  let ?w = "walk unicodeLower guiEnabled titles directory directory (basename directory, d)"
  let ?c = "checkForContent unicodeLower guiEnabled titles directory (Some d)"
  have s: "structural (fst ?w, snd ?w)"
    using walk_structural(1)
            [of unicodeLower guiEnabled titles directory directory "(basename directory, d)"]
    by simp
  have c1: "fst ?c = fst ?w"
    by (simp add: checkForContent_def Let_def)
  have c2: "snd ?c = (if snd ?w = Some SkipDir then None else snd ?w)"
    by (simp add: checkForContent_def Let_def)
  have 1: "checkForContent unicodeLower guiEnabled titles directory None
     = ([Emit Console (RootNotFound directory)], Some (DirectoryNotFound directory))"
    by (simp add: checkForContent_def)
  have 2: "EnumFail p e \<in> set (fst ?c) \<longrightarrow>
      last (fst ?c) = EnumFail p e \<and> snd ?c = Some (OSError e)"
  proof
    assume "EnumFail p e \<in> set (fst ?c)"
    then have "EnumFail p e \<in> set (fst ?w)" by (simp only: c1)
    from structural_EnumFail [OF s this]
    show "last (fst ?c) = EnumFail p e \<and> snd ?c = Some (OSError e)"
      by (simp add: c1 c2)
  qed
  have 3: "snd ?c \<noteq> None \<longrightarrow> (\<exists>q msg. EnumFail q msg \<in> set (fst ?c))"
  proof
    assume "snd ?c \<noteq> None"
    then have "snd ?w \<noteq> None" and "snd ?w \<noteq> Some SkipDir"
      by (simp_all add: c2 split: if_splits)
    from structural_error [OF s this]
    show "\<exists>q msg. EnumFail q msg \<in> set (fst ?c)" by (simp only: c1)
  qed
  have 4: "Ext (fst f) = ''.xbe'' \<and> getSHA1Hash (snd f) = Inl err \<longrightarrow>
      (\<exists>rest.
         fst (processUpdates guiEnabled subDirUpdates (Dir (before @ after)) titleData titleID
                directory)
           = fst (processUpdates guiEnabled subDirUpdates (Dir before) titleData titleID
                    directory) @ rest \<and>
         fst (processUpdates guiEnabled subDirUpdates (Dir (before @ f # after)) titleData
                titleID directory)
           = fst (processUpdates guiEnabled subDirUpdates (Dir before) titleData titleID
                    directory)
               @ GetSHA1 (Join subDirUpdates (fst f))
               # report guiEnabled (HashError (fst f) err) @ rest)"
  proof
    assume "Ext (fst f) = ''.xbe'' \<and> getSHA1Hash (snd f) = Inl err"
    then have "Ext (fst f) = ''.xbe''" and "getSHA1Hash (snd f) = Inl err" by simp_all
    then show "\<exists>rest.
         fst (processUpdates guiEnabled subDirUpdates (Dir (before @ after)) titleData titleID
                directory)
           = fst (processUpdates guiEnabled subDirUpdates (Dir before) titleData titleID
                    directory) @ rest \<and>
         fst (processUpdates guiEnabled subDirUpdates (Dir (before @ f # after)) titleData
                titleID directory)
           = fst (processUpdates guiEnabled subDirUpdates (Dir before) titleData titleID
                    directory)
               @ GetSHA1 (Join subDirUpdates (fst f))
               # report guiEnabled (HashError (fst f) err) @ rest"
      by (rule processUpdates_hash_failure)
  qed
  have 5: "filter isGetSHA1
     (fst (processUpdates guiEnabled subDirUpdates (Dir files) titleData titleID directory))
     = map (\<lambda>f. GetSHA1 (Join subDirUpdates (fst f)))
         (filter (\<lambda>f. Ext (fst f) = ''.xbe'') files)"
    by (simp add: processUpdates_def updatesLoop_hashes)
  have 6: "snd (processUpdates guiEnabled subDirUpdates (Dir files) titleData titleID
                    directory) = None"
    by (simp add: processUpdates_def)
  from 1 2 3 4 5 6 show ?thesis by (intro conjI)
qed

theorem only_structural_failures_abort_witness:
  "checkForContent sampleLower False sampleCatalog ''dump'' None
     = ([Emit Console (RootNotFound ''dump'')], Some (DirectoryNotFound ''dump'')) \<and>
   EnumFail ''dump/locked'' ''open dump/locked: permission denied''
     \<in> set (fst (checkForContent sampleLower False sampleCatalog ''dump''
                    (Some brokenTree))) \<and>
   last (fst (checkForContent sampleLower False sampleCatalog ''dump'' (Some brokenTree)))
     = EnumFail ''dump/locked'' ''open dump/locked: permission denied'' \<and>
   snd (checkForContent sampleLower False sampleCatalog ''dump'' (Some brokenTree))
     = Some (OSError ''open dump/locked: permission denied'') \<and>
   Ext ''bad.xbe'' = ''.xbe'' \<and>
   fst (processUpdates False ''dump/4d530064/$u'' (Dir updatesDir) gameA ''4d530064''
          ''dump'')
     = [GetSHA1 ''dump/4d530064/$u/alpha.xbe'',
        Emit Console
          (UpdateUnknown ''Game A'' ''4d530064'' ''4d530064/$u/alpha.xbe''
             ''da39a3ee5e6b4b0d3255bfef95601890afd80709''),
        GetSHA1 ''dump/4d530064/$u/bad.xbe'',
        Emit Console
          (HashError ''bad.xbe'' ''open dump/4d530064/$u/bad.xbe: permission denied''),
        GetSHA1 ''dump/4d530064/$u/good.xbe'',
        Emit Console
          (UpdateKnown ''Game A'' ''4d530064'' ''Title Update for Game A 1.0''
             ''4d530064/$u/good.xbe'' ''356a192b7913b04c54574d18c28d46e6395428ab'')] \<and>
   filter isGetSHA1
     (fst (processUpdates False ''dump/4d530064/$u'' (Dir updatesDir) gameA ''4d530064''
             ''dump''))
     = [GetSHA1 ''dump/4d530064/$u/alpha.xbe'',
        GetSHA1 ''dump/4d530064/$u/bad.xbe'',
        GetSHA1 ''dump/4d530064/$u/good.xbe'']"
proof -
  note t = only_structural_failures_abort
          [where unicodeLower = sampleLower and guiEnabled = False and titles = sampleCatalog
             and directory = "''dump''" and p = "''dump/locked''"
             and e = "''open dump/locked: permission denied''" and d = brokenTree
             and f = "(''bad.xbe'',
                       File (Inl ''open dump/4d530064/$u/bad.xbe: permission denied''))"
             and err = "''open dump/4d530064/$u/bad.xbe: permission denied''"
             and subDirUpdates = "''dump/4d530064/$u''"
             and titleData = gameA and titleID = "''4d530064''"
             and before = "[(''alpha.xbe'',
                             File (Inr ''da39a3ee5e6b4b0d3255bfef95601890afd80709''))]"
             and after = "[(''good.xbe'',
                            File (Inr ''356a192b7913b04c54574d18c28d46e6395428ab''))]"
             and files = updatesDir]
  note t1 = t [THEN conjunct1]
  note t2 = t [THEN conjunct2, THEN conjunct1]
  note t4 = t [THEN conjunct2, THEN conjunct2, THEN conjunct2, THEN conjunct1]
  note t5 = t [THEN conjunct2, THEN conjunct2, THEN conjunct2, THEN conjunct2, THEN conjunct1]
  have m: "EnumFail ''dump/locked'' ''open dump/locked: permission denied''
     \<in> set (fst (checkForContent sampleLower False sampleCatalog ''dump''
                    (Some brokenTree)))"
    by (simp add: brokenTree_run)
  from t2 m have l:
    "last (fst (checkForContent sampleLower False sampleCatalog ''dump'' (Some brokenTree)))
       = EnumFail ''dump/locked'' ''open dump/locked: permission denied''"
    and r: "snd (checkForContent sampleLower False sampleCatalog ''dump'' (Some brokenTree))
       = Some (OSError ''open dump/locked: permission denied'')"
    by simp_all
  have x: "Ext ''bad.xbe'' = ''.xbe''"
    by (simp add: Ext_def)
  have b: "fst (processUpdates False ''dump/4d530064/$u''
                  (Dir [(''alpha.xbe'',
                         File (Inr ''da39a3ee5e6b4b0d3255bfef95601890afd80709''))])
                  gameA ''4d530064'' ''dump'')
     = [GetSHA1 ''dump/4d530064/$u/alpha.xbe'',
        Emit Console
          (UpdateUnknown ''Game A'' ''4d530064'' ''4d530064/$u/alpha.xbe''
             ''da39a3ee5e6b4b0d3255bfef95601890afd80709'')]"
    by (simp add: run_defs)
  have ba: "fst (processUpdates False ''dump/4d530064/$u''
                  (Dir [(''alpha.xbe'',
                         File (Inr ''da39a3ee5e6b4b0d3255bfef95601890afd80709'')),
                        (''good.xbe'',
                         File (Inr ''356a192b7913b04c54574d18c28d46e6395428ab''))])
                  gameA ''4d530064'' ''dump'')
     = [GetSHA1 ''dump/4d530064/$u/alpha.xbe'',
        Emit Console
          (UpdateUnknown ''Game A'' ''4d530064'' ''4d530064/$u/alpha.xbe''
             ''da39a3ee5e6b4b0d3255bfef95601890afd80709''),
        GetSHA1 ''dump/4d530064/$u/good.xbe'',
        Emit Console
          (UpdateKnown ''Game A'' ''4d530064'' ''Title Update for Game A 1.0''
             ''4d530064/$u/good.xbe'' ''356a192b7913b04c54574d18c28d46e6395428ab'')]"
    by (simp add: run_defs)
  from t4 x obtain rest where
    r1: "fst (processUpdates False ''dump/4d530064/$u''
                (Dir ([(''alpha.xbe'',
                        File (Inr ''da39a3ee5e6b4b0d3255bfef95601890afd80709''))]
                      @ [(''good.xbe'',
                          File (Inr ''356a192b7913b04c54574d18c28d46e6395428ab''))]))
                gameA ''4d530064'' ''dump'')
           = fst (processUpdates False ''dump/4d530064/$u''
                    (Dir [(''alpha.xbe'',
                           File (Inr ''da39a3ee5e6b4b0d3255bfef95601890afd80709''))])
                    gameA ''4d530064'' ''dump'') @ rest"
    and r2: "fst (processUpdates False ''dump/4d530064/$u''
                (Dir ([(''alpha.xbe'',
                        File (Inr ''da39a3ee5e6b4b0d3255bfef95601890afd80709''))]
                      @ (''bad.xbe'',
                         File (Inl ''open dump/4d530064/$u/bad.xbe: permission denied''))
                      # [(''good.xbe'',
                          File (Inr ''356a192b7913b04c54574d18c28d46e6395428ab''))]))
                gameA ''4d530064'' ''dump'')
           = fst (processUpdates False ''dump/4d530064/$u''
                    (Dir [(''alpha.xbe'',
                           File (Inr ''da39a3ee5e6b4b0d3255bfef95601890afd80709''))])
                    gameA ''4d530064'' ''dump'')
               @ GetSHA1 (Join ''dump/4d530064/$u''
                            (fst (''bad.xbe'',
                                  File (Inl ''open dump/4d530064/$u/bad.xbe: permission denied''))))
               # report False
                   (HashError
                      (fst (''bad.xbe'',
                            File (Inl ''open dump/4d530064/$u/bad.xbe: permission denied'')))
                      ''open dump/4d530064/$u/bad.xbe: permission denied'')
               @ rest"
    by auto
  from r1 have rest: "rest = [GetSHA1 ''dump/4d530064/$u/good.xbe'',
        Emit Console
          (UpdateKnown ''Game A'' ''4d530064'' ''Title Update for Game A 1.0''
             ''4d530064/$u/good.xbe'' ''356a192b7913b04c54574d18c28d46e6395428ab'')]"
    by (simp add: b ba)
  from r2 have u:
    "fst (processUpdates False ''dump/4d530064/$u'' (Dir updatesDir) gameA ''4d530064''
            ''dump'')
     = [GetSHA1 ''dump/4d530064/$u/alpha.xbe'',
        Emit Console
          (UpdateUnknown ''Game A'' ''4d530064'' ''4d530064/$u/alpha.xbe''
             ''da39a3ee5e6b4b0d3255bfef95601890afd80709''),
        GetSHA1 ''dump/4d530064/$u/bad.xbe'',
        Emit Console
          (HashError ''bad.xbe'' ''open dump/4d530064/$u/bad.xbe: permission denied''),
        GetSHA1 ''dump/4d530064/$u/good.xbe'',
        Emit Console
          (UpdateKnown ''Game A'' ''4d530064'' ''Title Update for Game A 1.0''
             ''4d530064/$u/good.xbe'' ''356a192b7913b04c54574d18c28d46e6395428ab'')]"
    by (simp add: b rest updatesDir_def report_def Join_def Clean_def)
  from t5 have h:
    "filter isGetSHA1
       (fst (processUpdates False ''dump/4d530064/$u'' (Dir updatesDir) gameA ''4d530064''
               ''dump''))
     = [GetSHA1 ''dump/4d530064/$u/alpha.xbe'',
        GetSHA1 ''dump/4d530064/$u/bad.xbe'',
        GetSHA1 ''dump/4d530064/$u/good.xbe'']"
    by (simp add: updatesDir_def Ext_def Join_def Clean_def)
  from t1 m l r x u h show ?thesis by (intro conjI)
qed

section \<open>Nothing beneath an unrecognized directory\<close>

lemma IsDir_prune: "IsDir (prune unicodeLower titles name d) = IsDir d"
  by (cases d) simp_all

lemma getSHA1Hash_prune: "getSHA1Hash (prune unicodeLower titles name d) = getSHA1Hash d"
  by (cases d) simp_all

lemma map_of_prunes:
  "map_of (prunes unicodeLower titles names) n = map_option (prune unicodeLower titles n) (map_of names n)"
  by (induction names) auto

lemma map_of_stub:
  "map_of (map stub names) n
     = map_option (\<lambda>d. if IsDir d then Dir [] else File (Inl [])) (map_of names n)"
  by (induction names) (auto simp: stub_def)

lemma dirAt_prunes: "dirAt (prunes unicodeLower titles names) n = dirAt names n"
  by (simp add: dirAt_def map_of_prunes IsDir_prune split: option.splits)

lemma dirAt_stub: "dirAt (map stub names) n = dirAt names n"
  by (simp add: dirAt_def map_of_stub split: option.splits)

lemma hasContentMetaXbx_prunes:
  "hasContentMetaXbx unicodeLower (prunes unicodeLower titles entries) = hasContentMetaXbx unicodeLower entries"
  by (induction entries) (simp_all add: IsDir_prune)

lemma hasContentMetaXbx_stub:
  "hasContentMetaXbx unicodeLower (map stub entries) = hasContentMetaXbx unicodeLower entries"
  by (induction entries) (simp_all add: stub_def)

lemma dlcLoop_prunes:
  "dlcLoop unicodeLower guiEnabled subDirDLC titleData directory (prunes unicodeLower titles subContents)
     = dlcLoop unicodeLower guiEnabled subDirDLC titleData directory subContents"
proof (induction subContents)
  case Nil
  show ?case by simp
next
  case (Cons s rest)
  show ?case
    by (cases "snd s")
       (simp_all add: Cons Let_def hasContentMetaXbx_prunes hasContentMetaXbx_stub)
qed

lemma processDLCContent_prune:
  assumes "length name \<noteq> 8"
  shows "processDLCContent unicodeLower guiEnabled subDirDLC (prune unicodeLower titles name d) titleData titleID directory
       = processDLCContent unicodeLower guiEnabled subDirDLC d titleData titleID directory"
  using assms by (cases d) (simp_all add: processDLCContent_def dlcLoop_prunes)

lemma updatesLoop_prunes:
  "updatesLoop guiEnabled subDirUpdates titleData titleID directory found (prunes unicodeLower titles files)
     = updatesLoop guiEnabled subDirUpdates titleData titleID directory found files"
  by (induction files arbitrary: found)
     (simp_all add: getSHA1Hash_prune Let_def split: sum.splits)

lemma processUpdates_prune:
  assumes "length name \<noteq> 8"
  shows "processUpdates guiEnabled subDirUpdates (prune unicodeLower titles name d) titleData titleID directory
       = processUpdates guiEnabled subDirUpdates d titleData titleID directory"
  using assms by (cases d) (simp_all add: processUpdates_def updatesLoop_prunes)

lemma probeDLC_prunes:
  "probeDLC unicodeLower guiEnabled titles directory path (name, Dir (prunes unicodeLower titles names))
     = probeDLC unicodeLower guiEnabled titles directory path (name, Dir names)"
  by (simp add: probeDLC_def Let_def map_of_prunes IsDir_prune processDLCContent_prune
        split: option.splits)

lemma probeUpdates_prunes:
  "probeUpdates unicodeLower guiEnabled titles directory path (name, Dir (prunes unicodeLower titles names))
     = probeUpdates unicodeLower guiEnabled titles directory path (name, Dir names)"
  by (simp add: probeUpdates_def Let_def map_of_prunes IsDir_prune processUpdates_prune
        split: option.splits)

lemma probeDLC_stub:
  assumes "titles (ToLower unicodeLower name) = None"
  shows "probeDLC unicodeLower guiEnabled titles directory path (name, Dir (map stub names))
       = probeDLC unicodeLower guiEnabled titles directory path (name, Dir names)"
  using assms by (simp add: probeDLC_def Let_def map_of_stub split: option.splits)

lemma probeUpdates_stub:
  assumes "titles (ToLower unicodeLower name) = None"
  shows "probeUpdates unicodeLower guiEnabled titles directory path (name, Dir (map stub names))
       = probeUpdates unicodeLower guiEnabled titles directory path (name, Dir names)"
  using assms by (simp add: probeUpdates_def Let_def map_of_stub split: option.splits)

lemma walkFn_prune:
  "walkFn unicodeLower guiEnabled titles directory path (name, prune unicodeLower titles name d) err
     = walkFn unicodeLower guiEnabled titles directory path (name, d) err"
proof (cases d)
  case (File r)
  then show ?thesis by simp
next
  case (NoList e)
  then show ?thesis by simp
next
  case (Dir names)
  show ?thesis
  proof (cases "length name = 8 \<and> titles (ToLower unicodeLower name) = None")
    case True
    then have p: "prune unicodeLower titles name (Dir names) = Dir (map stub names)"
      by simp
    from True have u: "titles (ToLower unicodeLower name) = None" by simp
    show ?thesis
      unfolding Dir p using u
      by (cases err) (simp_all add: walkFn_def Let_def probeDLC_stub probeUpdates_stub)
  next
    case False
    then have p: "prune unicodeLower titles name (Dir names) = Dir (prunes unicodeLower titles names)"
      by auto
    show ?thesis
      unfolding Dir p
      by (cases err) (simp_all add: walkFn_def Let_def probeDLC_prunes probeUpdates_prunes)
  qed
qed

lemma walkFn_unknown_skips:
  assumes "length name = 8" and "titles (ToLower unicodeLower name) = None"
  shows "snd (walkFn unicodeLower guiEnabled titles directory path (name, Dir names) None) = Some SkipDir"
  using assms by (simp add: walkFn_unrecognized)

lemma walk_prune:
  "walk unicodeLower guiEnabled titles directory path entry
     = walk unicodeLower guiEnabled titles directory path (fst entry, prune unicodeLower titles (fst entry) (snd entry))"
  "walks unicodeLower guiEnabled titles directory path entries
     = walks unicodeLower guiEnabled titles directory path (prunes unicodeLower titles entries)"
proof (induction unicodeLower guiEnabled titles directory path entry and
        unicodeLower guiEnabled titles directory path entries
        rule: walk_walks.induct)
  case (1 unicodeLower guiEnabled titles directory path name r)
  show ?case by simp
next
  case (2 unicodeLower guiEnabled titles directory path name e)
  show ?case by simp
next
  case (3 unicodeLower guiEnabled titles directory path name names)
  show ?case
  proof (cases "length name = 8 \<and> titles (ToLower unicodeLower name) = None")
    case True
    then have "snd (walkFn unicodeLower guiEnabled titles directory path (name, Dir names) None) \<noteq> None"
      and "snd (walkFn unicodeLower guiEnabled titles directory path (name, Dir (map stub names)) None) \<noteq> None"
      by (simp_all add: walkFn_unknown_skips)
    moreover have "walkFn unicodeLower guiEnabled titles directory path (name, Dir (map stub names)) None
       = walkFn unicodeLower guiEnabled titles directory path (name, Dir names) None"
      using walkFn_prune [of unicodeLower guiEnabled titles directory path name "Dir names" None] True
      by simp
    ultimately show ?thesis using True by (simp add: Let_def)
  next
    case False
    have eq: "walkFn unicodeLower guiEnabled titles directory path (name, Dir (prunes unicodeLower titles names)) None
       = walkFn unicodeLower guiEnabled titles directory path (name, Dir names) None"
      using walkFn_prune [of unicodeLower guiEnabled titles directory path name "Dir names" None] False
      by auto
    show ?thesis
    proof (cases "snd (walkFn unicodeLower guiEnabled titles directory path (name, Dir names) None) \<noteq> None")
      case True
      with False eq show ?thesis by (auto simp: Let_def)
    next
      case nn: False
      with "3.IH" have "walks unicodeLower guiEnabled titles directory path names
         = walks unicodeLower guiEnabled titles directory path (prunes unicodeLower titles names)" by simp
      with False eq nn show ?thesis by (auto simp: Let_def)
    qed
  qed
next
  case (4 unicodeLower guiEnabled titles directory path)
  show ?case by simp
next
  case (5 unicodeLower guiEnabled titles directory path entry rest)
  let ?r = "walk unicodeLower guiEnabled titles directory (Join path (fst entry)) entry"
  have r: "walk unicodeLower guiEnabled titles directory (Join path (fst entry))
             (fst entry, prune unicodeLower titles (fst entry) (snd entry)) = ?r"
    using "5.IH"(1) by simp
  show ?case
  proof (cases "snd ?r \<noteq> None \<and> (\<not> IsDir (snd entry) \<or> snd ?r \<noteq> Some SkipDir)")
    case True
    with r show ?thesis by (simp add: Let_def IsDir_prune)
  next
    case False
    with "5.IH"(2) have "walks unicodeLower guiEnabled titles directory path rest
       = walks unicodeLower guiEnabled titles directory path (prunes unicodeLower titles rest)" by simp
    with r False show ?thesis by (auto simp: Let_def IsDir_prune)
  qed
qed

lemma report_noVisit: "filter isVisit (report guiEnabled ev) = []"
  by (simp add: report_def)

lemma logOutput_noVisit: "filter isVisit (logOutput guiEnabled ev) = []"
  by (simp add: logOutput_def)

lemma classifyContent_noVisit:
  "filter isVisit (classifyContent unicodeLower guiEnabled titleData directory p name) = []"
  by (simp add: classifyContent_def Let_def report_noVisit)

lemma dlcLoop_noVisit:
  "filter isVisit (fst (dlcLoop unicodeLower guiEnabled subDirDLC titleData directory subContents)) = []"
proof (induction subContents)
  case Nil
  show ?case by simp
next
  case (Cons s rest)
  show ?case
    by (cases "snd s") (simp_all add: Cons Let_def classifyContent_noVisit)
qed

lemma scanKnown_noVisit:
  "filter isVisit
     (fst (scanKnown guiEnabled titleData titleID directory filePath fileHash found ms)) = []"
  by (induction ms) (auto simp: reportKnown_def Let_def split: option.splits)

lemma updatesLoop_noVisit:
  "filter isVisit
     (updatesLoop guiEnabled subDirUpdates titleData titleID directory found files) = []"
proof (induction files arbitrary: found)
  case Nil
  show ?case by simp
next
  case (Cons f files)
  show ?case
    by (cases "getSHA1Hash (snd f)")
       (simp_all add: Cons Let_def report_noVisit scanKnown_noVisit reportUnknown_def)
qed

lemma probeDLC_noVisit:
  "filter isVisit (fst (probeDLC unicodeLower guiEnabled titles directory path info)) = []"
  by (cases "Stat (snd info) ''$c''"; cases "titles (ToLower unicodeLower (fst info))")
     (auto simp: probeDLC_def Let_def processDLCContent_def dlcLoop_noVisit logOutput_noVisit
        split: sum.splits)

lemma probeUpdates_noVisit:
  "filter isVisit (fst (probeUpdates unicodeLower guiEnabled titles directory path info)) = []"
  by (cases "Stat (snd info) ''$u''"; cases "titles (ToLower unicodeLower (fst info))")
     (auto simp: probeUpdates_def Let_def processUpdates_def updatesLoop_noVisit
        logOutput_noVisit split: sum.splits)

lemma walkFn_visits:
  "filter isVisit (fst (walkFn unicodeLower guiEnabled titles directory path info None)) = [Visit path]"
  by (simp add: walkFn_def Let_def probeDLC_noVisit probeUpdates_noVisit report_noVisit
        split: option.splits)

lemma probeDLC_unknown:
  assumes "titles (ToLower unicodeLower (fst info)) = None"
  shows "snd (probeDLC unicodeLower guiEnabled titles directory path info) = None"
  using assms by (simp add: probeDLC_def Let_def split: option.splits)

lemma probeUpdates_unknown:
  assumes "titles (ToLower unicodeLower (fst info)) = None"
  shows "snd (probeUpdates unicodeLower guiEnabled titles directory path info) = None"
  using assms by (simp add: probeUpdates_def Let_def split: option.splits)

lemma walkFn_SkipDir_iff:
  "(snd (walkFn unicodeLower guiEnabled titles directory path info None) = Some SkipDir)
     = (IsDir (snd info) \<and> length (fst info) = 8 \<and> titles (ToLower unicodeLower (fst info)) = None)"
proof (cases "titles (ToLower unicodeLower (fst info))")
  case None
  then show ?thesis
    by (simp add: walkFn_def Let_def probeDLC_unknown probeUpdates_unknown)
next
  case (Some titleData)
  then show ?thesis
    using probeDLC_structural [of unicodeLower guiEnabled titles directory path info]
          probeUpdates_structural [of unicodeLower guiEnabled titles directory path info]
    by (simp add: walkFn_def Let_def)
qed

lemma walk_SkipDir:
  "snd (walk unicodeLower guiEnabled titles directory path entry) = Some SkipDir \<longrightarrow> IsDir (snd entry)"
  "snd (walks unicodeLower guiEnabled titles directory path entries) \<noteq> Some SkipDir"
proof (induction unicodeLower guiEnabled titles directory path entry and
        unicodeLower guiEnabled titles directory path entries
        rule: walk_walks.induct)
  case (1 unicodeLower guiEnabled titles directory path name r)
  show ?case by (simp add: walkFn_SkipDir_iff)
next
  case (2 unicodeLower guiEnabled titles directory path name e)
  show ?case by simp
next
  case (3 unicodeLower guiEnabled titles directory path name names)
  show ?case by simp
next
  case (4 unicodeLower guiEnabled titles directory path)
  show ?case by simp
next
  case (5 unicodeLower guiEnabled titles directory path entry rest)
  then show ?case by (auto simp: Let_def)
qed

lemma walk_visits:
  "prefix (filter isVisit (fst (walk unicodeLower guiEnabled titles directory path entry)))
          (map Visit (visible unicodeLower titles path entry)) \<and>
   (snd (walk unicodeLower guiEnabled titles directory path entry) = None \<or>
    snd (walk unicodeLower guiEnabled titles directory path entry) = Some SkipDir \<longrightarrow>
      filter isVisit (fst (walk unicodeLower guiEnabled titles directory path entry))
        = map Visit (visible unicodeLower titles path entry))"
  "prefix (filter isVisit (fst (walks unicodeLower guiEnabled titles directory path entries)))
          (map Visit (visibles unicodeLower titles path entries)) \<and>
   (snd (walks unicodeLower guiEnabled titles directory path entries) = None \<longrightarrow>
      filter isVisit (fst (walks unicodeLower guiEnabled titles directory path entries))
        = map Visit (visibles unicodeLower titles path entries))"
proof (induction unicodeLower guiEnabled titles directory path entry and
        unicodeLower guiEnabled titles directory path entries
        rule: walk_walks.induct)
  case (1 unicodeLower guiEnabled titles directory path name r)
  show ?case by (simp add: walkFn_visits)
next
  case (2 unicodeLower guiEnabled titles directory path name e)
  show ?case by (simp add: walkFn_def)
next
  case (3 unicodeLower guiEnabled titles directory path name names)
  let ?r = "walkFn unicodeLower guiEnabled titles directory path (name, Dir names) None"
  have v: "filter isVisit (fst ?r) = [Visit path]" by (rule walkFn_visits)
  have s: "(snd ?r = Some SkipDir) = (length name = 8 \<and> titles (ToLower unicodeLower name) = None)"
    using walkFn_SkipDir_iff [of unicodeLower guiEnabled titles directory path "(name, Dir names)"] by simp
  show ?case
  proof (cases "snd ?r \<noteq> None")
    case True
    with v s show ?thesis by (auto simp: Let_def)
  next
    case False
    then have nu: "\<not> (length name = 8 \<and> titles (ToLower unicodeLower name) = None)"
      using s by auto
    from False "3.IH" have ih:
      "prefix (filter isVisit (fst (walks unicodeLower guiEnabled titles directory path names)))
          (map Visit (visibles unicodeLower titles path names))"
      "snd (walks unicodeLower guiEnabled titles directory path names) = None \<longrightarrow>
         filter isVisit (fst (walks unicodeLower guiEnabled titles directory path names))
           = map Visit (visibles unicodeLower titles path names)"
      by simp_all
    have ns: "snd (walks unicodeLower guiEnabled titles directory path names) \<noteq> Some SkipDir"
      by (rule walk_SkipDir(2))
    from False have "walk unicodeLower guiEnabled titles directory path (name, Dir names)
        = (fst ?r @ fst (walks unicodeLower guiEnabled titles directory path names),
           snd (walks unicodeLower guiEnabled titles directory path names))"
      by (simp add: Let_def)
    with v nu ih ns show ?thesis by auto
  qed
next
  case (4 unicodeLower guiEnabled titles directory path)
  show ?case by simp
next
  case (5 unicodeLower guiEnabled titles directory path entry rest)
  let ?r = "walk unicodeLower guiEnabled titles directory (Join path (fst entry)) entry"
  let ?w = "walks unicodeLower guiEnabled titles directory path rest"
  have r: "prefix (filter isVisit (fst ?r)) (map Visit (visible unicodeLower titles (Join path (fst entry)) entry))"
    and r2: "snd ?r = None \<or> snd ?r = Some SkipDir \<Longrightarrow>
       filter isVisit (fst ?r) = map Visit (visible unicodeLower titles (Join path (fst entry)) entry)"
    using "5.IH"(1) by simp_all
  show ?case
  proof (cases "snd ?r \<noteq> None \<and> (\<not> IsDir (snd entry) \<or> snd ?r \<noteq> Some SkipDir)")
    case True
    then have "walks unicodeLower guiEnabled titles directory path (entry # rest) = ?r"
      by (simp add: Let_def)
    moreover have "snd ?r \<noteq> None" using True by simp
    ultimately show ?thesis using r by (auto intro: prefix_order.trans)
  next
    case False
    then have eq: "filter isVisit (fst ?r) = map Visit (visible unicodeLower titles (Join path (fst entry)) entry)"
      using r2 by auto
    from False "5.IH"(2) have ih:
      "prefix (filter isVisit (fst ?w)) (map Visit (visibles unicodeLower titles path rest))"
      "snd ?w = None \<longrightarrow> filter isVisit (fst ?w) = map Visit (visibles unicodeLower titles path rest)"
      by simp_all
    from False have "walks unicodeLower guiEnabled titles directory path (entry # rest)
        = (fst ?r @ fst ?w, snd ?w)" by (auto simp: Let_def)
    with eq ih show ?thesis by simp
  qed
qed

text \<open>
  Claim C10. The walk function is called on exactly the paths that do not lie
  strictly beneath a directory with an 8-byte name that the catalog does not have
  (on all of them when the scan ends without error, on the first of them otherwise).
  The actions and the result of a scan stay the same when each such directory keeps
  only the names of its entries and whether each is a directory. And such a
  directory with neither \<open>$c\<close> nor \<open>$u\<close> in it gives \<open>SkipDir\<close> although no
  event is emitted.
\<close>

theorem nothing_beneath_unrecognized_directory:
  "prefix (filter isVisit (fst (checkForContent unicodeLower guiEnabled titles directory (Some d))))
          (map Visit (visible unicodeLower titles directory (basename directory, d))) \<and>
   (snd (checkForContent unicodeLower guiEnabled titles directory (Some d)) = None \<longrightarrow>
      filter isVisit (fst (checkForContent unicodeLower guiEnabled titles directory (Some d)))
        = map Visit (visible unicodeLower titles directory (basename directory, d))) \<and>
   checkForContent unicodeLower guiEnabled titles directory (Some d)
     = checkForContent unicodeLower guiEnabled titles directory
         (Some (prune unicodeLower titles (basename directory) d)) \<and>
   (length name = 8 \<and> titles (ToLower unicodeLower name) = None \<and>
    \<not> dirAt names ''$c'' \<and> \<not> dirAt names ''$u'' \<longrightarrow>
      walkFn unicodeLower guiEnabled titles directory path (name, Dir names) None
        = ([Visit path], Some SkipDir) \<and>
      walk unicodeLower guiEnabled titles directory path (name, Dir names)
        = ([Visit path], Some SkipDir))"
proof -
  let ?w = "walk unicodeLower guiEnabled titles directory directory (basename directory, d)"
  let ?c = "checkForContent unicodeLower guiEnabled titles directory (Some d)"
  have c1: "fst ?c = fst ?w"
    by (simp add: checkForContent_def Let_def)
  have c2: "snd ?c = (if snd ?w = Some SkipDir then None else snd ?w)"
    by (simp add: checkForContent_def Let_def)
  have v: "prefix (filter isVisit (fst ?w))
             (map Visit (visible unicodeLower titles directory (basename directory, d)))"
    and ve: "snd ?w = None \<or> snd ?w = Some SkipDir \<longrightarrow>
             filter isVisit (fst ?w)
               = map Visit (visible unicodeLower titles directory (basename directory, d))"
    using walk_visits(1)
            [of unicodeLower guiEnabled titles directory directory "(basename directory, d)"]
    by simp_all
  have 1: "prefix (filter isVisit (fst ?c))
             (map Visit (visible unicodeLower titles directory (basename directory, d)))"
    using v by (simp only: c1)
  have 2: "snd ?c = None \<longrightarrow>
      filter isVisit (fst ?c) = map Visit (visible unicodeLower titles directory (basename directory, d))"
  proof
    assume "snd ?c = None"
    then have "snd ?w = None \<or> snd ?w = Some SkipDir"
      by (simp add: c2 split: if_splits)
    with ve show "filter isVisit (fst ?c)
        = map Visit (visible unicodeLower titles directory (basename directory, d))"
      by (simp only: c1)
  qed
  have 3: "?c = checkForContent unicodeLower guiEnabled titles directory
                  (Some (prune unicodeLower titles (basename directory) d))"
    using walk_prune(1) [of unicodeLower guiEnabled titles directory directory "(basename directory, d)"]
    by (simp add: checkForContent_def)
  have 4: "length name = 8 \<and> titles (ToLower unicodeLower name) = None \<and>
    \<not> dirAt names ''$c'' \<and> \<not> dirAt names ''$u'' \<longrightarrow>
      walkFn unicodeLower guiEnabled titles directory path (name, Dir names) None
        = ([Visit path], Some SkipDir) \<and>
      walk unicodeLower guiEnabled titles directory path (name, Dir names)
        = ([Visit path], Some SkipDir)"
    by (simp add: walkFn_unrecognized)
  from 1 2 3 4 show ?thesis by (intro conjI)
qed

lemma mixedTree_run:
  "checkForContent sampleLower False sampleCatalog ''dump'' (Some mixedTree)
     = ([Visit ''dump'',
         Visit ''dump/notes.txt'',
         Visit ''dump/yyyyyyyy'',
         Visit ''dump/zzzzzzzz'',
         Emit Console (UnrecognizedUpdates ''dump/zzzzzzzz/$u'')],
        None)"
  by (simp add: run_defs mixedTree_def unknownTitleDir_def)

theorem nothing_beneath_unrecognized_directory_witness:
  "snd (checkForContent sampleLower False sampleCatalog ''dump'' (Some mixedTree)) = None \<and>
   visible sampleLower sampleCatalog ''dump'' (basename ''dump'', mixedTree)
     = [''dump'', ''dump/notes.txt'', ''dump/yyyyyyyy'', ''dump/zzzzzzzz''] \<and>
   filter isVisit (fst (checkForContent sampleLower False sampleCatalog ''dump'' (Some mixedTree)))
     = [Visit ''dump'', Visit ''dump/notes.txt'', Visit ''dump/yyyyyyyy'',
        Visit ''dump/zzzzzzzz''] \<and>
   prune sampleLower sampleCatalog (basename ''dump'') mixedTree
     = Dir [(''notes.txt'', File (Inr [])),
            (''yyyyyyyy'', Dir [(''saves'', Dir [])]),
            (''zzzzzzzz'', Dir [(''$u'', Dir []), (''saves'', Dir [])])] \<and>
   checkForContent sampleLower False sampleCatalog ''dump'' (Some mixedTree)
     = checkForContent sampleLower False sampleCatalog ''dump''
         (Some (Dir [(''notes.txt'', File (Inr [])),
                     (''yyyyyyyy'', Dir [(''saves'', Dir [])]),
                     (''zzzzzzzz'', Dir [(''$u'', Dir []), (''saves'', Dir [])])])) \<and>
   length ''yyyyyyyy'' = 8 \<and> sampleCatalog (ToLower sampleLower ''yyyyyyyy'') = None \<and>
   \<not> dirAt [(''saves'', Dir [(''slot1'', File (Inr []))])] ''$c'' \<and>
   \<not> dirAt [(''saves'', Dir [(''slot1'', File (Inr []))])] ''$u'' \<and>
   walk sampleLower False sampleCatalog ''dump'' ''dump/yyyyyyyy''
     (''yyyyyyyy'', Dir [(''saves'', Dir [(''slot1'', File (Inr []))])])
     = ([Visit ''dump/yyyyyyyy''], Some SkipDir)"
proof -
  have p: "prune sampleLower sampleCatalog (basename ''dump'') mixedTree
     = Dir [(''notes.txt'', File (Inr [])),
            (''yyyyyyyy'', Dir [(''saves'', Dir [])]),
            (''zzzzzzzz'', Dir [(''$u'', Dir []), (''saves'', Dir [])])]"
    by (simp add: run_defs mixedTree_def unknownTitleDir_def stub_def)
  have v: "visible sampleLower sampleCatalog ''dump'' (basename ''dump'', mixedTree)
     = [''dump'', ''dump/notes.txt'', ''dump/yyyyyyyy'', ''dump/zzzzzzzz'']"
    by (simp add: run_defs mixedTree_def unknownTitleDir_def)
  have h: "length ''yyyyyyyy'' = 8 \<and> sampleCatalog (ToLower sampleLower ''yyyyyyyy'') = None \<and>
   \<not> dirAt [(''saves'', Dir [(''slot1'', File (Inr []))])] ''$c'' \<and>
   \<not> dirAt [(''saves'', Dir [(''slot1'', File (Inr []))])] ''$u''"
    by (simp add: run_defs dirAt_def)
  note t = nothing_beneath_unrecognized_directory
        [where unicodeLower = sampleLower and guiEnabled = False and titles = sampleCatalog
           and directory = "''dump''" and d = mixedTree and name = "''yyyyyyyy''" and path = "''dump/yyyyyyyy''"
           and names = "[(''saves'', Dir [(''slot1'', File (Inr []))])]"]
  have r: "snd (checkForContent sampleLower False sampleCatalog ''dump'' (Some mixedTree)) = None"
    by (simp add: mixedTree_run)
  note t2 = t [THEN conjunct2, THEN conjunct1]
  note t3 = t [THEN conjunct2, THEN conjunct2, THEN conjunct1]
  note t4 = t [THEN conjunct2, THEN conjunct2, THEN conjunct2]
  from t2 r v have f:
    "filter isVisit (fst (checkForContent sampleLower False sampleCatalog ''dump'' (Some mixedTree)))
       = [Visit ''dump'', Visit ''dump/notes.txt'', Visit ''dump/yyyyyyyy'',
          Visit ''dump/zzzzzzzz'']"
    by simp
  from t3 p have e:
    "checkForContent sampleLower False sampleCatalog ''dump'' (Some mixedTree)
       = checkForContent sampleLower False sampleCatalog ''dump''
           (Some (Dir [(''notes.txt'', File (Inr [])),
                       (''yyyyyyyy'', Dir [(''saves'', Dir [])]),
                       (''zzzzzzzz'', Dir [(''$u'', Dir []), (''saves'', Dir [])])]))"
    by simp
  from t4 h have w:
    "walk sampleLower False sampleCatalog ''dump'' ''dump/yyyyyyyy''
       (''yyyyyyyy'', Dir [(''saves'', Dir [(''slot1'', File (Inr []))])])
       = ([Visit ''dump/yyyyyyyy''], Some SkipDir)"
    by simp
  from r v f p e h w show ?thesis by (intro conjI) simp_all
qed

end
